theory Spec2Isabelle
  imports Complex_Main
begin

section \<open>Python values, errors and slices\<close>

text \<open>
  Every exception the modelled code can raise is a value of \<open>error\<close>; a function
  that may raise returns \<open>error + 'a\<close>, with \<open>Inl\<close> the exception.
  \<open>ValueError msg\<close> is an exception of the class \<open>ValueError\<close> itself, with its message.
  \<open>UnicodeDecodeError\<close> is what \<open>codecs.decode\<close> raises on a malformed escape; in Python
  it is a subclass of \<open>ValueError\<close>. \<open>OSError\<close> is what loading a tokenizer raises when
  its files cannot be read.
\<close>

datatype error =
    AssertionError
  | ValueError string
  | KeyError string
  | IndexError
  | TypeError
  | RuntimeError
  | ZeroDivisionError
  | UnicodeDecodeError
  | OSError

text \<open>\<open>isinstance(e, ValueError)\<close>: an \<open>except ValueError\<close> clause catches these.\<close>

fun isinstance_ValueError :: "error \<Rightarrow> bool" where
  "isinstance_ValueError (ValueError msg) = True"
| "isinstance_ValueError UnicodeDecodeError = True"
| "isinstance_ValueError e = False"

text \<open>
  \<open>xs[i]\<close> on a Python list or a numpy array: a negative index counts from the
  end, an index out of range raises \<open>IndexError\<close>.
\<close>

definition py_index :: "'a list \<Rightarrow> int \<Rightarrow> error + 'a" where
  "py_index xs i =
     (if 0 \<le> i \<and> i < int (length xs) then Inr (xs ! nat i)
      else if i < 0 \<and> - int (length xs) \<le> i then Inr (xs ! nat (int (length xs) + i))
      else Inl IndexError)"

text \<open>
  \<open>xs[k:]\<close> and \<open>xs[:k]\<close>: a negative bound counts from the end and is clipped at
  the start of the sequence. In particular \<open>xs[-0:]\<close> is the whole of \<open>xs\<close>.
\<close>

definition slice_from :: "'a list \<Rightarrow> int \<Rightarrow> 'a list" where
  "slice_from xs k =
     (if 0 \<le> k then drop (nat k) xs else drop (nat (int (length xs) + k)) xs)"

definition slice_to :: "'a list \<Rightarrow> int \<Rightarrow> 'a list" where
  "slice_to xs k =
     (if 0 \<le> k then take (nat k) xs else take (nat (int (length xs) + k)) xs)"

text \<open>\<open>torch.full((n,), v)\<close>: a negative size is refused.\<close>

definition torch_full :: "int \<Rightarrow> 'a \<Rightarrow> error + 'a list" where
  "torch_full n v = (if n < 0 then Inl RuntimeError else Inr (replicate (nat n) v))"

text \<open>
  \<open>dst[k:] = src\<close> on one-dimensional tensors. The slice selected in \<open>dst\<close> has
  the length of \<open>slice_from dst k\<close>; \<open>src\<close> must have that length, or length one (it
  is then broadcast over the slice, also over an empty one); any other shape raises.
\<close>

definition assign_from :: "'a list \<Rightarrow> int \<Rightarrow> 'a list \<Rightarrow> error + 'a list" where
  "assign_from dst k src =
     (let t = length (slice_from dst k); keep = take (length dst - t) dst
      in if length src = t then Inr (keep @ src)
         else if length src = 1 then Inr (keep @ replicate t (hd src))
         else Inl RuntimeError)"

text \<open>\<open>t.masked_fill_(mask, v)\<close> for a mask of the same shape as \<open>t\<close>.\<close>

definition masked_fill :: "'a list \<Rightarrow> bool list \<Rightarrow> 'a \<Rightarrow> 'a list" where
  "masked_fill t msk v = map (\<lambda>(x, m). if m then v else x) (zip t msk)"

text \<open>\<open>t[-1] = v\<close>: raises \<open>IndexError\<close> on an empty tensor.\<close>

definition set_last :: "'a list \<Rightarrow> 'a \<Rightarrow> error + 'a list" where
  "set_last t v = (if t = [] then Inl IndexError else Inr (butlast t @ [v]))"

section \<open>The tokenizer and its setup (text_utils.py)\<close>

text \<open>
  The tokenizer is an external collaborator; the record holds what the code reads from
  it. A special token that is set carries its text and its id, an unset one is \<open>None\<close>
  (and so is its id). \<open>tokenize\<close> is the call with \<open>add_special_tokens=False\<close>,
  \<open>tokenize_special\<close> the one with \<open>add_special_tokens=True\<close>, both reduced to the
  id sequence of their single input text. \<open>vocab_len\<close> is \<open>len(tokenizer)\<close>.
  Token ids are mathematical integers; the code's tensors hold them exactly.
\<close>

record tokenizer =
  tokenize :: "string \<Rightarrow> int list"
  tokenize_special :: "string \<Rightarrow> int list"
  padding_side :: string
  pad_token :: "(string \<times> int) option"
  eos_token :: "(string \<times> int) option"
  cls_token :: "(string \<times> int) option"
  sep_token :: "string option"
  unk_token_id :: "int option"
  mask_token_id :: "int option"
  all_special_tokens :: "string list"
  vocab_len :: nat

definition pad_token_id :: "tokenizer \<Rightarrow> int option" where
  "pad_token_id tok = map_option snd (pad_token tok)"

definition eos_token_id :: "tokenizer \<Rightarrow> int option" where
  "eos_token_id tok = map_option snd (eos_token tok)"

datatype prompt_column = Single string | Multi "string list"

text \<open>
  The configuration object. The last four fields are the ones \<open>get_tokenizer\<close> writes
  onto it (\<open>_tokenizer_sep_token\<close>, \<open>_tokenizer_mask_token_id\<close>,
  \<open>_tokenizer_eos_token\<close>, \<open>tokenizer._stop_words_ids\<close>). \<open>separator\<close> is \<open>None\<close>
  when \<open>cfg.dataset\<close> has no such attribute, \<open>cfg_padding_side\<close> when
  \<open>cfg.tokenizer\<close> has no \<open>_padding_side\<close>.
\<close>

record config =
  answer_column :: string
  prompt_column :: prompt_column
  parent_id_column :: string
  text_prompt_start :: string
  text_answer_separator :: string
  add_eos_token_to_prompt :: bool
  add_eos_token_to_answer :: bool
  mask_prompt_labels :: bool
  separator :: "string option"
  cfg_padding_side :: "string option"
  max_length_prompt :: int
  max_length_answer :: int
  max_length :: int
  skip_parent_probability :: real
  random_parent_probability :: real
  beta :: real
  local_rank :: int
  stop_tokens :: "string list"
  tokenizer_sep_token :: string
  tokenizer_mask_token_id :: int
  tokenizer_eos_token :: "string option"
  stop_words_ids :: "int list list"

text \<open>
  Lines 50 to 59 of \<open>get_tokenizer\<close>: the chain that resolves the stored mask-token
  id. The third test repeats the second one, as in the source.
\<close>

definition resolve_mask_token_id :: "tokenizer \<Rightarrow> int" where
  "resolve_mask_token_id tok =
     (if unk_token_id tok \<noteq> None then the (unk_token_id tok)
      else if mask_token_id tok \<noteq> None then the (mask_token_id tok)
      else if mask_token_id tok \<noteq> None then the (pad_token_id tok)
      else int (vocab_len tok) - 1)"

text \<open>
  \<open>get_tokenizer\<close>, from the tokenizer that \<open>AutoTokenizer.from_pretrained\<close> has
  loaded (the loading itself is outside the model). It returns the adjusted tokenizer
  and the configuration with the resolved fields written.
\<close>

definition get_tokenizer :: "tokenizer \<Rightarrow> config \<Rightarrow> tokenizer \<times> config" where
  "get_tokenizer loaded cfg =
     (let t1 = loaded\<lparr>padding_side :=
                 (case cfg_padding_side cfg of None \<Rightarrow> padding_side loaded | Some s \<Rightarrow> s)\<rparr>;
          t2 = (if pad_token t1 = None then t1\<lparr>pad_token := eos_token t1\<rparr> else t1);
          t3 = (if cls_token t2 = None then t2\<lparr>cls_token := eos_token t2\<rparr> else t2);
          tok = (if sep_token t3 = None then t3\<lparr>sep_token := Some '' ''\<rparr> else t3);
          c1 = cfg\<lparr>tokenizer_sep_token :=
                 (case separator cfg of
                    None \<Rightarrow> the (sep_token tok)
                  | Some s \<Rightarrow> if length s \<noteq> 0 then s else the (sep_token tok))\<rparr>;
          c2 = c1\<lparr>tokenizer_mask_token_id := resolve_mask_token_id tok\<rparr>;
          c3 = c2\<lparr>tokenizer_eos_token := map_option fst (eos_token tok)\<rparr>;
          c4 = c3\<lparr>stop_words_ids :=
                 map (\<lambda>w. if w \<in> set (all_special_tokens tok)
                           then tokenize_special tok w else tokenize tok w)
                     (stop_tokens cfg)\<rparr>
      in (tok, c4))"

section \<open>The preference losses (text_dpo_modeling_losses.py)\<close>

text \<open>
  Log-probabilities are modelled as real numbers: the theory states the algebra of the
  losses, not the rounding of the floating-point tensors that carry them. A batch is a
  list, one number per example.
\<close>

datatype loss_class = DPOLoss | HingeLoss | IPOLoss

text \<open>
  Elementwise subtraction of two one-dimensional tensors: equal shapes, or one of them
  of size one (broadcast); any other pair of shapes raises.
\<close>

definition tensor_sub :: "real list \<Rightarrow> real list \<Rightarrow> error + real list" where
  "tensor_sub xs ys =
     (if length xs = length ys then Inr (map (\<lambda>(x, y). x - y) (zip xs ys))
      else if length xs = 1 then Inr (map (\<lambda>y. hd xs - y) ys)
      else if length ys = 1 then Inr (map (\<lambda>x. x - hd ys) xs)
      else Inl RuntimeError)"

text \<open>
  \<open>t.mean()\<close>: the arithmetic mean of the entries. An empty tensor has none (the code
  computes NaN); \<open>None\<close> stands for that.
\<close>

definition tensor_mean :: "real list \<Rightarrow> real option" where
  "tensor_mean xs = (if xs = [] then None else Some (sum_list xs / real (length xs)))"

text \<open>
  The two library functions \<open>get_losses\<close> calls, on one entry: \<open>F.logsigmoid\<close>, the
  logarithm of the logistic function, and \<open>torch.relu\<close>, the positive part.
\<close>

definition logsigmoid :: "real \<Rightarrow> real" where
  "logsigmoid x = ln (1 / (1 + exp (- x)))"

definition relu :: "real \<Rightarrow> real" where
  "relu x = max 0 x"

text \<open>
  \<open>get_losses\<close> of the three classes, on the tensor of logits. \<open>beta\<close> is a Python
  float, and dividing by a \<open>beta\<close> that is zero raises \<open>ZeroDivisionError\<close>.
\<close>

fun get_losses :: "loss_class \<Rightarrow> config \<Rightarrow> real list \<Rightarrow> error + real list" where
  "get_losses DPOLoss cfg logits =
     (let label_smoothing = 0
      in Inr (map (\<lambda>x. - logsigmoid (beta cfg * x) * (1 - label_smoothing)
                        - logsigmoid (- beta cfg * x) * label_smoothing) logits))"
| "get_losses HingeLoss cfg logits = Inr (map (\<lambda>x. relu (1 - beta cfg * x)) logits)"
| "get_losses IPOLoss cfg logits =
     (if 2 * beta cfg = 0 then Inl ZeroDivisionError
      else Inr (map (\<lambda>x. (x - 1 / (2 * beta cfg)) ^ 2) logits))"

text \<open>
  The per-example formula of each variant as the specification's table gives it, for a
  temperature \<open>b\<close>, written with the logarithm, the exponential and the order of the
  reals and with nothing of the model above: \<open>log_sigmoid z\<close> is the logarithm of the
  logistic function \<open>1 / (1 + exp (- z))\<close> (the smoothing of the sigmoid loss is 0), and
  \<open>relu z\<close> is \<open>z\<close> where \<open>z\<close> is positive and \<open>0\<close> elsewhere.
\<close>

fun spec_loss :: "loss_class \<Rightarrow> real \<Rightarrow> real \<Rightarrow> real" where
  "spec_loss DPOLoss b x = - ln (1 / (1 + exp (- (b * x))))"
| "spec_loss HingeLoss b x = (if 0 < 1 - b * x then 1 - b * x else 0)"
| "spec_loss IPOLoss b x = (x - 1 / (2 * b)) ^ 2"

text \<open>Lines 40 to 43 of \<open>forward\<close>: the argument \<open>logits\<close> of \<open>get_losses\<close>.\<close>

definition forward_logits ::
  "real list \<Rightarrow> real list \<Rightarrow> real list \<Rightarrow> real list \<Rightarrow> error + real list" where
  "forward_logits policy_chosen_logps policy_rejected_logps
                  reference_chosen_logps reference_rejected_logps =
     (case tensor_sub policy_chosen_logps policy_rejected_logps of
        Inl e \<Rightarrow> Inl e
      | Inr pi_logratios \<Rightarrow>
         (case tensor_sub reference_chosen_logps reference_rejected_logps of
            Inl e \<Rightarrow> Inl e
          | Inr ref_logratios \<Rightarrow> tensor_sub pi_logratios ref_logratios))"

text \<open>\<open>DPOLoss.forward\<close>, inherited by the two other classes.\<close>

definition forward ::
  "loss_class \<Rightarrow> config \<Rightarrow> real list \<Rightarrow> real list \<Rightarrow> real list \<Rightarrow> real list
     \<Rightarrow> error + (real option \<times> real option \<times> real option)" where
  "forward cls cfg policy_chosen_logps policy_rejected_logps
           reference_chosen_logps reference_rejected_logps =
     (case forward_logits policy_chosen_logps policy_rejected_logps
             reference_chosen_logps reference_rejected_logps of
        Inl e \<Rightarrow> Inl e
      | Inr logits \<Rightarrow>
     (case get_losses cls cfg logits of
        Inl e \<Rightarrow> Inl e
      | Inr losses \<Rightarrow>
     (case tensor_sub policy_chosen_logps reference_chosen_logps of
        Inl e \<Rightarrow> Inl e
      | Inr dc \<Rightarrow>
        (let chosen_rewards = map (\<lambda>d. beta cfg * d) dc
         in case tensor_sub policy_rejected_logps reference_rejected_logps of
              Inl e \<Rightarrow> Inl e
            | Inr dr \<Rightarrow>
             (let rejected_rewards = map (\<lambda>d. beta cfg * d) dr
              in Inr (tensor_mean losses, tensor_mean chosen_rewards,
                      tensor_mean rejected_rewards))))))"

text \<open>The factory: the registry \<open>_losses\<close> and \<open>Losses.get\<close> with its default.\<close>

definition losses_registry :: "(string \<times> loss_class) list" where
  "losses_registry =
     [(''DPOLoss'', DPOLoss), (''HingeLoss'', HingeLoss), (''IPOLoss'', IPOLoss)]"

definition Losses_names :: "string list" where
  "Losses_names = map fst losses_registry"

definition Losses_get :: "string \<Rightarrow> loss_class" where
  "Losses_get name =
     (case map_of losses_registry name of None \<Rightarrow> DPOLoss | Some c \<Rightarrow> c)"

section \<open>The input table\<close>

text \<open>
  A pandas DataFrame: its row count (\<open>shape[0]\<close>) and its columns by name. A cell is
  a value, given by the text \<open>astype(str)\<close> renders it to, or missing (\<open>NaN\<close>).
\<close>

datatype cell = NaN | Val string

record dataframe =
  n_rows :: nat
  columns :: "(string \<times> cell list) list"

definition wf_dataframe :: "dataframe \<Rightarrow> bool" where
  "wf_dataframe df = list_all (\<lambda>(name, xs). length xs = n_rows df) (columns df)"

definition column_names :: "dataframe \<Rightarrow> string list" where
  "column_names df = map fst (columns df)"

text \<open>\<open>df[name]\<close>: raises \<open>KeyError\<close> for a column the table does not have.\<close>

definition df_col :: "dataframe \<Rightarrow> string \<Rightarrow> error + cell list" where
  "df_col df name =
     (case map_of (columns df) name of None \<Rightarrow> Inl (KeyError name) | Some xs \<Rightarrow> Inr xs)"

fun astype_str :: "cell \<Rightarrow> string" where
  "astype_str NaN = ''nan''"
| "astype_str (Val s) = s"

definition dropna :: "cell list \<Rightarrow> cell list" where
  "dropna xs = filter (\<lambda>c. c \<noteq> NaN) xs"

text \<open>\<open>sep.join(xs)\<close>\<close>

fun py_join :: "string \<Rightarrow> string list \<Rightarrow> string" where
  "py_join sep [] = []"
| "py_join sep [x] = x"
| "py_join sep (x # y # ys) = x @ sep @ py_join sep (y # ys)"

text \<open>Running a fallible function over a list: the first exception ends the run.\<close>

fun map_err :: "('a \<Rightarrow> error + 'b) \<Rightarrow> 'a list \<Rightarrow> error + 'b list" where
  "map_err f [] = Inr []"
| "map_err f (x # xs) =
     (case f x of
        Inl e \<Rightarrow> Inl e
      | Inr y \<Rightarrow> (case map_err f xs of Inl e \<Rightarrow> Inl e | Inr ys \<Rightarrow> Inr (y # ys)))"

text \<open>
  \<open>get_texts\<close>. The argument \<open>sep\<close> is the keyword \<open>separator\<close> (\<open>None\<close> when not
  given). When it is not given the code reads \<open>cfg._tokenizer_sep_token\<close>, which
  \<open>get_tokenizer\<close> has set by the time the dataset calls \<open>get_texts\<close>.
\<close>

definition get_texts :: "dataframe \<Rightarrow> config \<Rightarrow> string option \<Rightarrow> error + string list" where
  "get_texts df cfg sep =
     (case prompt_column cfg of
        Single c \<Rightarrow>
          (case df_col df c of Inl e \<Rightarrow> Inl e | Inr xs \<Rightarrow> Inr (map astype_str xs))
      | Multi cs \<Rightarrow>
          (case map_err (df_col df) cs of
             Inl e \<Rightarrow> Inl e
           | Inr cols \<Rightarrow>
              (let separator' =
                     (case sep of
                        Some s \<Rightarrow> s
                      | None \<Rightarrow>
                          (case separator cfg of
                             None \<Rightarrow> tokenizer_sep_token cfg
                           | Some s \<Rightarrow> if length s \<noteq> 0 then s else tokenizer_sep_token cfg));
                   join_str = '' '' @ separator' @ '' ''
               in Inr (map (\<lambda>i. py_join join_str (map (\<lambda>col. astype_str (col ! i)) cols))
                           [0..<n_rows df]))))"

section \<open>The dataset (text_causal_language_modeling_ds.py)\<close>

text \<open>
  The fields \<open>__init__\<close> sets. \<open>parent_ids\<close> is \<open>None\<close> when parent chaining is off;
  \<open>df_id_to_idx\<close> is the dictionary from a row's id to its index.
\<close>

record dataset =
  ds_cfg :: config
  ds_mode :: string
  ds_df :: dataframe
  ds_tokenizer :: tokenizer
  prompts :: "string list"
  answers :: "string list"
  parent_ids :: "cell list option"
  df_id_to_idx :: "cell \<Rightarrow> nat option"

text \<open>
  \<open>parse_prompt\<close>. \<open>dec\<close> is \<open>codecs.decode(_, 'unicode_escape')\<close>, an external
  function: it returns the decoded text, or raises \<open>UnicodeDecodeError\<close> on a text with a
  malformed escape (\<open>None\<close> here). The prefix is decoded first, the separator after the
  end-of-sequence text is appended. Appending an end-of-sequence text that is \<open>None\<close>
  raises \<open>TypeError\<close>.
\<close>

definition parse_prompt ::
  "(string \<Rightarrow> string option) \<Rightarrow> config \<Rightarrow> string \<Rightarrow> error + string" where
  "parse_prompt dec cfg prompt =
     (case dec (text_prompt_start cfg) of
        None \<Rightarrow> Inl UnicodeDecodeError
      | Some start \<Rightarrow>
         (let p1 = start @ prompt
          in case (if add_eos_token_to_prompt cfg
                   then (case tokenizer_eos_token cfg of
                           None \<Rightarrow> Inl TypeError
                         | Some e \<Rightarrow> Inr (p1 @ e))
                   else Inr p1) of
               Inl e \<Rightarrow> Inl e
             | Inr p2 \<Rightarrow>
                (case dec (text_answer_separator cfg) of
                   None \<Rightarrow> Inl UnicodeDecodeError
                 | Some sep \<Rightarrow> Inr (p2 @ sep))))"

text \<open>\<open>{v: k for k, v in enumerate(ids)}\<close>: a later row with the same id wins.\<close>

definition id_to_idx :: "cell list \<Rightarrow> cell \<Rightarrow> nat option" where
  "id_to_idx ids = fold (\<lambda>(k, v) m. m(v \<mapsto> k)) (enumerate 0 ids) Map.empty"

definition missing_values_message :: "string \<Rightarrow> config \<Rightarrow> string" where
  "missing_values_message mode cfg =
     ''The '' @ mode @ '' DataFrame'' @ '' column '' @ answer_column cfg
       @ '' contain missing values.''"

definition missing_column_message :: "string \<Rightarrow> config \<Rightarrow> string" where
  "missing_column_message mode cfg =
     ''The '' @ mode @ '' DataFrame '' @ ''does not contain the required column:''
       @ '' '' @ answer_column cfg @ ''.''"

text \<open>Lines 68 to 77 of \<open>__init__\<close>: the parent ids and the id dictionary.\<close>

definition init_parents ::
  "dataframe \<Rightarrow> config \<Rightarrow> error + (cell list option \<times> (cell \<Rightarrow> nat option))" where
  "init_parents df cfg =
     (if parent_id_column cfg \<noteq> ''None'' then
        (if ''id'' \<notin> set (column_names df) then Inr (None, Map.empty)
         else (case df_col df (parent_id_column cfg) of
                 Inl e \<Rightarrow> Inl e
               | Inr pids \<Rightarrow>
                  (case df_col df ''id'' of
                     Inl e \<Rightarrow> Inl e
                   | Inr ids \<Rightarrow> Inr (Some pids, id_to_idx ids))))
      else Inr (None, Map.empty))"

text \<open>
  Lines 61 to 82 of \<open>__init__\<close>, after the check of the answer column. \<open>load\<close> is
  the outcome of \<open>AutoTokenizer.from_pretrained\<close>, the first statement of
  \<open>get_tokenizer\<close>: the tokenizer it loaded, or the exception it raised, which
  \<open>__init__\<close> lets through. The configuration object is shared: the dataset keeps the
  one \<open>get_tokenizer\<close> wrote to. Logging the first prompt (on local rank 0) raises
  \<open>IndexError\<close> on an empty table.
\<close>

definition init_rest ::
  "(string \<Rightarrow> string option) \<Rightarrow> error + tokenizer \<Rightarrow> dataframe \<Rightarrow> config \<Rightarrow> string
     \<Rightarrow> error + dataset" where
  "init_rest dec load df cfg mode =
     (case load of
        Inl e \<Rightarrow> Inl e
      | Inr loaded \<Rightarrow>
     (case get_tokenizer loaded cfg of
        (tok, cfg') \<Rightarrow>
     (case get_texts df cfg' (Some '''') of
        Inl e \<Rightarrow> Inl e
      | Inr texts \<Rightarrow>
     (case df_col df (answer_column cfg') of
        Inl e \<Rightarrow> Inl e
      | Inr acol \<Rightarrow>
     (case init_parents df cfg' of
        Inl e \<Rightarrow> Inl e
      | Inr (pids, idmap) \<Rightarrow>
     (case map_err (parse_prompt dec cfg') texts of
        Inl e \<Rightarrow> Inl e
      | Inr ps \<Rightarrow>
         if local_rank cfg' = 0 \<and> ps = [] then Inl IndexError
         else Inr \<lparr>ds_cfg = cfg', ds_mode = mode, ds_df = df, ds_tokenizer = tok,
                   prompts = ps, answers = map astype_str acol,
                   parent_ids = pids, df_id_to_idx = idmap\<rparr>))))))"

text \<open>
  \<open>CustomDataset.__init__\<close>: the assertion on the mode, the check of the answer column
  (lines 36 to 59), then the rest.
\<close>

definition init ::
  "(string \<Rightarrow> string option) \<Rightarrow> error + tokenizer \<Rightarrow> dataframe \<Rightarrow> config \<Rightarrow> string
     \<Rightarrow> error + dataset" where
  "init dec load df cfg mode =
     (if mode \<notin> set [''train'', ''validation''] then Inl AssertionError
      else
       (let has_all_columns = answer_column cfg \<in> set (column_names df);
            has_missing_values =
              (if has_all_columns
               then n_rows df \<noteq> length (dropna (the (map_of (columns df) (answer_column cfg))))
               else False)
        in if \<not> has_all_columns \<or> has_missing_values then
             Inl (ValueError (if has_missing_values then missing_values_message mode cfg
                              else missing_column_message mode cfg))
           else init_rest dec load df cfg mode))"

text \<open>\<open>__len__\<close>\<close>

definition len :: "dataset \<Rightarrow> nat" where
  "len ds = n_rows (ds_df ds)"

text \<open>
  \<open>encode\<close>: the tokenizer's ids, cut to \<open>ids[:max_length]\<close> on the right or to
  \<open>ids[-max_length:]\<close> on the left.
\<close>

definition encode :: "tokenizer \<Rightarrow> string \<Rightarrow> int \<Rightarrow> string \<Rightarrow> int list" where
  "encode tok text max_len truncation_side =
     (let ids = tokenize tok text
      in if truncation_side = ''right'' then slice_to ids max_len
         else slice_from ids (- max_len))"

type_synonym sample = "int list \<times> int list"

text \<open>
  \<open>_get_sample\<close>: the pair of the row's prompt ids and answer ids. Building a tensor
  from an end-of-sequence id that is \<open>None\<close> raises \<open>TypeError\<close>.
\<close>

definition get_sample :: "dataset \<Rightarrow> int \<Rightarrow> error + sample" where
  "get_sample ds idx =
     (case py_index (prompts ds) idx of
        Inl e \<Rightarrow> Inl e
      | Inr prompt \<Rightarrow>
     (case py_index (answers ds) idx of
        Inl e \<Rightarrow> Inl e
      | Inr answer \<Rightarrow>
     (let prompt_encodings =
            encode (ds_tokenizer ds) prompt (max_length_prompt (ds_cfg ds)) ''left'';
          max_length_answer' =
            (if add_eos_token_to_answer (ds_cfg ds)
             then max_length_answer (ds_cfg ds) - 1
             else max_length_answer (ds_cfg ds));
          answer_encodings = encode (ds_tokenizer ds) answer max_length_answer' ''right''
      in if add_eos_token_to_answer (ds_cfg ds) then
           (case eos_token_id (ds_tokenizer ds) of
              None \<Rightarrow> Inl TypeError
            | Some eos \<Rightarrow> Inr (prompt_encodings, answer_encodings @ [eos]))
         else Inr (prompt_encodings, answer_encodings))))"

section \<open>Building one item\<close>

text \<open>
  The global random source of numpy, made an explicit state: \<open>rnd_uniform g k\<close> is the
  value the \<open>k\<close>-th draw returns when it is \<open>np.random.random()\<close>, \<open>rnd_integers g k\<close>
  the raw integer when it is \<open>np.random.randint\<close>, and \<open>rnd_used\<close> counts the draws made.
\<close>

record random_source =
  rnd_uniform :: "nat \<Rightarrow> real"
  rnd_integers :: "nat \<Rightarrow> nat"
  rnd_used :: nat

definition np_random_random :: "random_source \<Rightarrow> real \<times> random_source" where
  "np_random_random g = (rnd_uniform g (rnd_used g), g\<lparr>rnd_used := Suc (rnd_used g)\<rparr>)"

text \<open>\<open>np.random.randint(n)\<close>: a value below \<open>n\<close>; \<open>ValueError\<close> when \<open>n\<close> is 0.\<close>

definition np_random_randint :: "random_source \<Rightarrow> nat \<Rightarrow> (error + nat) \<times> random_source" where
  "np_random_randint g n =
     (if n = 0 then (Inl (ValueError ''high <= 0''), g)
      else (Inr (rnd_integers g (rnd_used g) mod n), g\<lparr>rnd_used := Suc (rnd_used g)\<rparr>))"

text \<open>The random source after the draw that train mode makes, and no other mode.\<close>

definition advance :: "dataset \<Rightarrow> random_source \<Rightarrow> random_source" where
  "advance ds g = (if ds_mode ds = ''train'' then g\<lparr>rnd_used := Suc (rnd_used g)\<rparr> else g)"

text \<open>
  The loop of lines 298 to 307 of \<open>_read_data\<close>, from the current \<open>parent_idx\<close> and the
  samples collected so far. The loop has no bound, so the function is partial: \<open>None\<close>
  is a walk that never ends.
\<close>

partial_function (option) parent_walk ::
  "dataset \<Rightarrow> cell list \<Rightarrow> random_source \<Rightarrow> int \<Rightarrow> sample list
     \<Rightarrow> ((error + sample list) \<times> random_source) option" where
  "parent_walk ds pids g parent_idx samples =
     (case py_index pids parent_idx of
        Inl e \<Rightarrow> Some (Inl e, g)
      | Inr pid \<Rightarrow>
         (case df_id_to_idx ds pid of
            None \<Rightarrow> Some (Inr samples, g)
          | Some p \<Rightarrow>
             (if ds_mode ds = ''train'' then
                (case np_random_random g of
                   (u, g') \<Rightarrow>
                     if u < skip_parent_probability (ds_cfg ds) then Some (Inr samples, g')
                     else (case get_sample ds (int p) of
                             Inl e \<Rightarrow> Some (Inl e, g')
                           | Inr s \<Rightarrow> parent_walk ds pids g' (int p) (s # samples)))
              else (case get_sample ds (int p) of
                      Inl e \<Rightarrow> Some (Inl e, g)
                    | Inr s \<Rightarrow> parent_walk ds pids g (int p) (s # samples)))))"

text \<open>Lines 309 to 314: the random parent, drawn in train mode only.\<close>

definition random_parent ::
  "dataset \<Rightarrow> random_source \<Rightarrow> sample list \<Rightarrow> (error + sample list) \<times> random_source" where
  "random_parent ds g samples =
     (if ds_mode ds = ''train'' then
        (case np_random_random g of
           (u, g1) \<Rightarrow>
             if u < random_parent_probability (ds_cfg ds) then
               (case np_random_randint g1 (len ds) of
                  (Inl e, g2) \<Rightarrow> (Inl e, g2)
                | (Inr rnd_idx, g2) \<Rightarrow>
                    (case get_sample ds (int rnd_idx) of
                       Inl e \<Rightarrow> (Inl e, g2)
                     | Inr s \<Rightarrow> (Inr (s # samples), g2)))
             else (Inr samples, g1))
      else (Inr samples, g))"

text \<open>Lines 294 to 314 of \<open>_read_data\<close>: the list \<open>samples\<close>.\<close>

definition read_data_samples ::
  "dataset \<Rightarrow> random_source \<Rightarrow> int \<Rightarrow> ((error + sample list) \<times> random_source) option" where
  "read_data_samples ds g idx =
     (case get_sample ds idx of
        Inl e \<Rightarrow> Some (Inl e, g)
      | Inr s \<Rightarrow>
         (case (case parent_ids ds of
                  None \<Rightarrow> Some (Inr [s], g)
                | Some pids \<Rightarrow> parent_walk ds pids g idx [s]) of
            None \<Rightarrow> None
          | Some (Inl e, g1) \<Rightarrow> Some (Inl e, g1)
          | Some (Inr samples, g1) \<Rightarrow> Some (random_parent ds g1 samples)))"

text \<open>Line 316 and lines 317 to 322: the flat id sequence and the prompt mask.\<close>

definition flat_input_ids :: "sample list \<Rightarrow> int list" where
  "flat_input_ids samples = concat (map (\<lambda>(p, a). p @ a) samples)"

definition flat_prompt_mask :: "sample list \<Rightarrow> bool list" where
  "flat_prompt_mask samples =
     concat (map (\<lambda>(p, a). replicate (length p) True @ replicate (length a) False) samples)"

text \<open>Lines 325 to 337: the labels.\<close>

definition make_labels :: "dataset \<Rightarrow> int list \<Rightarrow> bool list \<Rightarrow> error + int list" where
  "make_labels ds input_ids prompt_mask =
     (let l0 = input_ids;
          l1 = (if mask_prompt_labels (ds_cfg ds) then masked_fill l0 prompt_mask (- 100) else l0)
      in case (if add_eos_token_to_answer (ds_cfg ds) then
                 (case eos_token_id (ds_tokenizer ds) of
                    None \<Rightarrow> Inl TypeError
                  | Some eos \<Rightarrow> set_last l1 eos)
               else Inr l1) of
           Inl e \<Rightarrow> Inl e
         | Inr l2 \<Rightarrow>
            (let l3 = (if max_length (ds_cfg ds) < int (length input_ids)
                       then slice_from l2 (- max_length (ds_cfg ds)) else l2)
             in case torch_full (max_length (ds_cfg ds)) (- 100) of
                  Inl e \<Rightarrow> Inl e
                | Inr full \<Rightarrow> assign_from full (- int (length l3)) l3))"

text \<open>
  \<open>pad_tokens\<close>: the pair of the padded ids and the padded attention mask. A pad id
  that is \<open>None\<close> cannot fill a tensor.
\<close>

definition pad_tokens ::
  "int list \<Rightarrow> int list \<Rightarrow> int \<Rightarrow> int option \<Rightarrow> error + (int list \<times> int list)" where
  "pad_tokens input_ids attention_mask max_len pad_id =
     (let (ids, am) =
            (if max_len < int (length input_ids)
             then (slice_from input_ids (- max_len), slice_from attention_mask (- max_len))
             else (input_ids, attention_mask))
      in case pad_id of
           None \<Rightarrow> Inl TypeError
         | Some pad \<Rightarrow>
        (case torch_full max_len pad of
           Inl e \<Rightarrow> Inl e
         | Inr full \<Rightarrow>
        (case assign_from full (- int (length ids)) ids of
           Inl e \<Rightarrow> Inl e
         | Inr out_ids \<Rightarrow>
        (case torch_full max_len 0 of
           Inl e \<Rightarrow> Inl e
         | Inr zeros \<Rightarrow>
        (case assign_from zeros (- int (length ids)) am of
           Inl e \<Rightarrow> Inl e
         | Inr out_am \<Rightarrow> Inr (out_ids, out_am))))))"

text \<open>Line 348: the last sample loses its answer.\<close>

definition drop_last_answer :: "sample list \<Rightarrow> sample list" where
  "drop_last_answer samples = butlast samples @ [(fst (last samples), [])]"

record item =
  labels :: "int list"
  input_ids :: "int list"
  attention_mask :: "int list"
  prompt_input_ids :: "int list"
  prompt_attention_mask :: "int list"

text \<open>Lines 316 to 362 of \<open>_read_data\<close>: the tensors of the item, from \<open>samples\<close>.\<close>

definition read_data_tensors :: "dataset \<Rightarrow> sample list \<Rightarrow> error + item" where
  "read_data_tensors ds samples =
     (let ids = flat_input_ids samples;
          prompt_mask = flat_prompt_mask samples;
          am = replicate (length ids) 1
      in case make_labels ds ids prompt_mask of
           Inl e \<Rightarrow> Inl e
         | Inr lab \<Rightarrow>
        (case pad_tokens ids am (max_length (ds_cfg ds)) (pad_token_id (ds_tokenizer ds)) of
           Inl e \<Rightarrow> Inl e
         | Inr (out_ids, out_am) \<Rightarrow>
        (let pids = flat_input_ids (drop_last_answer samples);
             pam = replicate (length pids) 1
         in case pad_tokens pids pam (max_length_prompt (ds_cfg ds))
                   (pad_token_id (ds_tokenizer ds)) of
              Inl e \<Rightarrow> Inl e
            | Inr (out_pids, out_pam) \<Rightarrow>
                Inr \<lparr>labels = lab, input_ids = out_ids, attention_mask = out_am,
                     prompt_input_ids = out_pids, prompt_attention_mask = out_pam\<rparr>)))"

text \<open>\<open>_read_data\<close>, and \<open>__getitem__\<close>, which calls it on an empty record.\<close>

definition read_data ::
  "dataset \<Rightarrow> random_source \<Rightarrow> int \<Rightarrow> ((error + item) \<times> random_source) option" where
  "read_data ds g idx =
     (case read_data_samples ds g idx of
        None \<Rightarrow> None
      | Some (Inl e, g') \<Rightarrow> Some (Inl e, g')
      | Some (Inr samples, g') \<Rightarrow> Some (read_data_tensors ds samples, g'))"

definition getitem ::
  "dataset \<Rightarrow> random_source \<Rightarrow> int \<Rightarrow> ((error + item) \<times> random_source) option" where
  "getitem ds g idx = read_data ds g idx"

section \<open>Parent chains and well-formed datasets\<close>

text \<open>
  The parent of row \<open>i\<close> under the id dictionary, as the loop condition of
  \<open>_read_data\<close> computes it; \<open>None\<close> when the row's parent id has no mapping.
\<close>

definition parent_of :: "dataset \<Rightarrow> nat \<Rightarrow> nat option" where
  "parent_of ds i =
     (case parent_ids ds of
        None \<Rightarrow> None
      | Some pids \<Rightarrow>
         (case py_index pids (int i) of Inl e \<Rightarrow> None | Inr pid \<Rightarrow> df_id_to_idx ds pid))"

text \<open>The \<open>n\<close>-th ancestor of row \<open>i\<close>, when the chain is that long.\<close>

fun ancestor :: "dataset \<Rightarrow> nat \<Rightarrow> nat \<Rightarrow> nat option" where
  "ancestor ds 0 i = Some i"
| "ancestor ds (Suc n) i =
     (case parent_of ds i of None \<Rightarrow> None | Some p \<Rightarrow> ancestor ds n p)"

text \<open>
  The ancestor chain of row \<open>i\<close> is finite and acyclic: following parents from \<open>i\<close>
  reaches a row whose parent id has no mapping.
\<close>

inductive chain_ends :: "dataset \<Rightarrow> nat \<Rightarrow> bool" for ds :: dataset where
  root: "parent_of ds i = None \<Longrightarrow> chain_ends ds i"
| step: "parent_of ds i = Some p \<Longrightarrow> chain_ends ds p \<Longrightarrow> chain_ends ds i"

code_pred chain_ends .

text \<open>
  What \<open>__init__\<close> establishes on a table whose columns all have \<open>n_rows\<close> cells: one
  prompt, one answer and one parent id per row, and a dictionary into the rows.
\<close>

definition wf_dataset :: "dataset \<Rightarrow> bool" where
  "wf_dataset ds =
     (length (prompts ds) = len ds \<and> length (answers ds) = len ds \<and>
      (case parent_ids ds of
         None \<Rightarrow> True
       | Some pids \<Rightarrow>
           length pids = len ds \<and>
           list_all (\<lambda>pid. case df_id_to_idx ds pid of None \<Rightarrow> True | Some p \<Rightarrow> p < len ds)
                    pids))"

text \<open>An end-of-sequence id is there whenever the configuration asks to append it.\<close>

definition eos_available :: "dataset \<Rightarrow> bool" where
  "eos_available ds =
     (add_eos_token_to_answer (ds_cfg ds) \<longrightarrow> eos_token_id (ds_tokenizer ds) \<noteq> None)"

section \<open>Concrete inputs\<close>

text \<open>
  A byte-level tokenizer (one id per character, its code), with pad id 0 and
  end-of-sequence id 2, and neither an unknown token nor a mask token.
\<close>

definition example_tokenizer :: tokenizer where
  "example_tokenizer =
     \<lparr>tokenize = map (\<lambda>c. int (of_char c)),
      tokenize_special = (\<lambda>s. map (\<lambda>c. int (of_char c)) s @ [2]),
      padding_side = ''left'',
      pad_token = Some (''<pad>'', 0),
      eos_token = Some (''</s>'', 2),
      cls_token = None,
      sep_token = None,
      unk_token_id = None,
      mask_token_id = None,
      all_special_tokens = [''<pad>'', ''</s>''],
      vocab_len = 300\<rparr>"

definition example_config :: config where
  "example_config =
     \<lparr>answer_column = ''answer'',
      prompt_column = Single ''prompt'',
      parent_id_column = ''parent_id'',
      text_prompt_start = [],
      text_answer_separator = [],
      add_eos_token_to_prompt = False,
      add_eos_token_to_answer = True,
      mask_prompt_labels = True,
      separator = None,
      cfg_padding_side = None,
      max_length_prompt = 4,
      max_length_answer = 3,
      max_length = 8,
      skip_parent_probability = 0,
      random_parent_probability = 0,
      beta = 1 / 10,
      local_rank = 0,
      stop_tokens = [],
      tokenizer_sep_token = [],
      tokenizer_mask_token_id = 0,
      tokenizer_eos_token = None,
      stop_words_ids = []\<rparr>"

text \<open>Three rows: \<open>a\<close> has no parent, \<open>b\<close> answers \<open>a\<close>, \<open>c\<close> answers \<open>b\<close>.\<close>

definition example_df :: dataframe where
  "example_df =
     \<lparr>n_rows = 3,
      columns =
        [(''id'', [Val ''a'', Val ''b'', Val ''c'']),
         (''parent_id'', [NaN, Val ''a'', Val ''b'']),
         (''prompt'', [Val ''hi'', Val ''yo'', Val ''ok'']),
         (''answer'', [Val ''A'', Val ''B'', Val ''C''])]\<rparr>"

text \<open>Two rows that name each other as parent.\<close>

definition cyclic_df :: dataframe where
  "cyclic_df =
     \<lparr>n_rows = 2,
      columns =
        [(''id'', [Val ''a'', Val ''b'']),
         (''parent_id'', [Val ''b'', Val ''a'']),
         (''prompt'', [Val ''hi'', Val ''yo'']),
         (''answer'', [Val ''A'', Val ''B''])]\<rparr>"

text \<open>The answer column has a missing value in its second row.\<close>

definition missing_df :: dataframe where
  "missing_df =
     \<lparr>n_rows = 2,
      columns =
        [(''prompt'', [Val ''hi'', Val ''yo'']),
         (''answer'', [Val ''A'', NaN])]\<rparr>"

text \<open>
  Two configurations for the first table, which has its answer column complete: one
  names a prompt column the table does not have, the other has a lone backslash as the
  prompt prefix.
\<close>

definition question_config :: config where
  "question_config = example_config\<lparr>prompt_column := Single ''question''\<rparr>"

definition backslash_config :: config where
  "backslash_config = example_config\<lparr>text_prompt_start := [CHR 0x5C]\<rparr>"

text \<open>The configuration and the tokenizer after \<open>get_tokenizer\<close> has run.\<close>

definition example_config' :: config where
  "example_config' =
     example_config\<lparr>tokenizer_sep_token := '' '', tokenizer_mask_token_id := 299,
                    tokenizer_eos_token := Some ''</s>''\<rparr>"

definition example_tokenizer' :: tokenizer where
  "example_tokenizer' =
     example_tokenizer\<lparr>cls_token := Some (''</s>'', 2), sep_token := Some '' ''\<rparr>"

text \<open>The datasets \<open>__init__\<close> builds from the two tables, in validation mode.\<close>

definition example_ds :: dataset where
  "example_ds =
     \<lparr>ds_cfg = example_config', ds_mode = ''validation'', ds_df = example_df,
      ds_tokenizer = example_tokenizer',
      prompts = [''hi'', ''yo'', ''ok''], answers = [''A'', ''B'', ''C''],
      parent_ids = Some [NaN, Val ''a'', Val ''b''],
      df_id_to_idx = id_to_idx [Val ''a'', Val ''b'', Val ''c'']\<rparr>"

definition cyclic_ds :: dataset where
  "cyclic_ds =
     \<lparr>ds_cfg = example_config', ds_mode = ''validation'', ds_df = cyclic_df,
      ds_tokenizer = example_tokenizer',
      prompts = [''hi'', ''yo''], answers = [''A'', ''B''],
      parent_ids = Some [Val ''b'', Val ''a''],
      df_id_to_idx = id_to_idx [Val ''a'', Val ''b'']\<rparr>"

text \<open>The first dataset with a tokenizer whose pad token is its end-of-sequence token.\<close>

definition eos_pad_ds :: dataset where
  "eos_pad_ds =
     example_ds\<lparr>ds_tokenizer := example_tokenizer'\<lparr>pad_token := Some (''</s>'', 2)\<rparr>\<rparr>"

text \<open>A random source whose every uniform draw is one half.\<close>

definition example_rnd :: random_source where
  "example_rnd = \<lparr>rnd_uniform = (\<lambda>k. 1 / 2), rnd_integers = (\<lambda>k. k), rnd_used = 0\<rparr>"

text \<open>
  \<open>codecs.decode(_, 'unicode_escape')\<close> on the texts the examples give it: a text
  without a backslash holds no escape and decodes to itself, and the text that is one
  backslash is a truncated escape, which raises. This stand-in refuses every other text
  with a backslash; the examples use none.
\<close>

definition example_decode :: "string \<Rightarrow> string option" where
  "example_decode s = (if CHR 0x5C \<in> set s then None else Some s)"



section \<open>The loss family\<close>

lemma tensor_sub_same_length:
  "length xs = length ys \<Longrightarrow>
   tensor_sub xs ys = Inr (map (\<lambda>i. xs ! i - ys ! i) [0..<length xs])"
  by (auto simp: tensor_sub_def intro!: nth_equalityI)

lemma tensor_sub_tabulated:
  "tensor_sub (map f [0..<n]) (map g [0..<n]) = Inr (map (\<lambda>i. f i - g i) [0..<n])"
  by (auto simp: tensor_sub_def intro!: nth_equalityI)

lemma forward_logits_same_length:
  assumes "length pc = n" "length pr = n" "length rc = n" "length rr = n"
  shows "forward_logits pc pr rc rr =
           Inr (map (\<lambda>i. (pc ! i - pr ! i) - (rc ! i - rr ! i)) [0..<n])"
  using assms
  by (simp add: forward_logits_def tensor_sub_same_length tensor_sub_tabulated)

lemma get_losses_spec_loss:
  assumes "0 < beta cfg"
  shows "get_losses cls cfg logits = Inr (map (spec_loss cls (beta cfg)) logits)"
proof (cases cls)
  case DPOLoss
  then show ?thesis by (simp add: logsigmoid_def)
next
  case HingeLoss
  have "relu z = (if 0 < z then z else 0)" for z
    by (simp add: relu_def max_def)
  then show ?thesis using HingeLoss by simp
next
  case IPOLoss
  then show ?thesis using assms by simp
qed

lemma forward_same_length:
  assumes "length pc = n" "length pr = n" "length rc = n" "length rr = n" and "0 < beta cfg"
  shows "forward cls cfg pc pr rc rr =
     Inr (tensor_mean (map (\<lambda>i. spec_loss cls (beta cfg)
                                   ((pc ! i - pr ! i) - (rc ! i - rr ! i))) [0..<n]),
          tensor_mean (map (\<lambda>i. beta cfg * (pc ! i - rc ! i)) [0..<n]),
          tensor_mean (map (\<lambda>i. beta cfg * (pr ! i - rr ! i)) [0..<n]))"
  using assms(1-4)
  by (simp add: forward_def forward_logits_same_length [OF assms(1-4)]
      get_losses_spec_loss [OF assms(5)] tensor_sub_same_length o_def)

lemma logsigmoid_zero: "- logsigmoid 0 = ln 2"
  by (simp add: logsigmoid_def ln_div)

lemma neg_ln_logistic: "- ln (1 / (1 + exp (- z))) = ln (1 + exp (- z))" for z :: real
proof -
  have "0 < 1 + exp (- z)"
    by (simp add: add_pos_pos)
  then show ?thesis
    by (simp add: ln_div)
qed

lemma forward_example:
  assumes "beta cfg = 1 / 10"
  shows "forward_logits [- 1] [- 2] [- 3 / 2] [- 5 / 2] = Inr [0]"
    and "forward DPOLoss cfg [- 1] [- 2] [- 3 / 2] [- 5 / 2] =
           Inr (Some (ln 2), Some (1 / 20), Some (1 / 20))"
    and "forward HingeLoss cfg [- 1] [- 2] [- 3 / 2] [- 5 / 2] =
           Inr (Some 1, Some (1 / 20), Some (1 / 20))"
    and "forward IPOLoss cfg [- 1] [- 2] [- 3 / 2] [- 5 / 2] =
           Inr (Some 25, Some (1 / 20), Some (1 / 20))"
proof -
  show l: "forward_logits [- 1] [- 2] [- 3 / 2] [- 5 / 2] = Inr [0]"
    by (simp add: forward_logits_def tensor_sub_def)
  have r: "tensor_sub [- 1] [- 3 / 2] = Inr [1 / 2]" "tensor_sub [- 2] [- 5 / 2] = Inr [1 / 2]"
    by (simp_all add: tensor_sub_def)
  show "forward DPOLoss cfg [- 1] [- 2] [- 3 / 2] [- 5 / 2] =
          Inr (Some (ln 2), Some (1 / 20), Some (1 / 20))"
    unfolding forward_def l r
    using logsigmoid_zero by (simp add: tensor_mean_def assms)
  show "forward HingeLoss cfg [- 1] [- 2] [- 3 / 2] [- 5 / 2] =
          Inr (Some 1, Some (1 / 20), Some (1 / 20))"
    unfolding forward_def l r by (simp add: tensor_mean_def assms relu_def)
  show "forward IPOLoss cfg [- 1] [- 2] [- 3 / 2] [- 5 / 2] =
          Inr (Some 25, Some (1 / 20), Some (1 / 20))"
    unfolding forward_def l r by (simp add: tensor_mean_def assms)
qed

text \<open>
  Claim C2. For four log-probability vectors of one length \<open>n\<close> and a positive \<open>beta\<close>,
  \<open>forward\<close> returns the unweighted mean, over the examples, of the variant's loss at
  the logits \<open>(policy_chosen - policy_rejected) - (reference_chosen - reference_rejected)\<close>,
  with the mean of \<open>beta * (policy_chosen - reference_chosen)\<close> and the mean of
  \<open>beta * (policy_rejected - reference_rejected)\<close>. The code's losses are those of the
  specification's table, \<open>spec_loss\<close>, which is written with the logarithm and the
  exponential themselves: the sigmoid variant is minus the logarithm of the logistic
  function at \<open>beta * logits\<close> (the smoothing is 0), which is
  \<open>ln (1 + exp (- beta * logits))\<close>; the hinge variant is \<open>1 - beta * logits\<close> where that
  is positive and \<open>0\<close> elsewhere; the squared variant is \<open>(logits - 1 / (2 * beta))\<^sup>2\<close>. On
  the inputs \<open>[-1]\<close>, \<open>[-2]\<close>, \<open>[-1.5]\<close>, \<open>[-2.5]\<close> with \<open>beta = 0.1\<close> the logits are \<open>[0]\<close>
  and the three losses are \<open>ln 2\<close>, \<open>1\<close> and \<open>25\<close>. The numbers are reals.
\<close>

theorem forward_is_mean_of_variant_loss:
  assumes "length policy_chosen = n" and "length policy_rejected = n"
    and "length reference_chosen = n" and "length reference_rejected = n"
    and "0 < beta cfg"
  shows
    "forward_logits policy_chosen policy_rejected reference_chosen reference_rejected =
       Inr (map (\<lambda>i. (policy_chosen ! i - policy_rejected ! i)
                     - (reference_chosen ! i - reference_rejected ! i)) [0..<n]) \<and>
     forward cls cfg policy_chosen policy_rejected reference_chosen reference_rejected =
       Inr (tensor_mean (map (\<lambda>i. spec_loss cls (beta cfg)
                                ((policy_chosen ! i - policy_rejected ! i)
                                 - (reference_chosen ! i - reference_rejected ! i))) [0..<n]),
            tensor_mean (map (\<lambda>i. beta cfg * (policy_chosen ! i - reference_chosen ! i)) [0..<n]),
            tensor_mean (map (\<lambda>i. beta cfg * (policy_rejected ! i - reference_rejected ! i))
                             [0..<n])) \<and>
     get_losses cls cfg xs = Inr (map (spec_loss cls (beta cfg)) xs) \<and>
     get_losses DPOLoss cfg xs = Inr (map (\<lambda>x. ln (1 + exp (- (beta cfg * x)))) xs) \<and>
     get_losses HingeLoss cfg xs =
       Inr (map (\<lambda>x. if beta cfg * x < 1 then 1 - beta cfg * x else 0) xs) \<and>
     get_losses IPOLoss cfg xs = Inr (map (\<lambda>x. (x - 1 / (2 * beta cfg)) ^ 2) xs) \<and>
     (xs \<noteq> [] \<longrightarrow> tensor_mean xs = Some (sum_list xs / real (length xs))) \<and>
     (beta cfg = 1 / 10 \<longrightarrow>
        forward_logits [- 1] [- 2] [- 3 / 2] [- 5 / 2] = Inr [0] \<and>
        forward DPOLoss cfg [- 1] [- 2] [- 3 / 2] [- 5 / 2] =
          Inr (Some (ln 2), Some (1 / 20), Some (1 / 20)) \<and>
        forward HingeLoss cfg [- 1] [- 2] [- 3 / 2] [- 5 / 2] =
          Inr (Some 1, Some (1 / 20), Some (1 / 20)) \<and>
        forward IPOLoss cfg [- 1] [- 2] [- 3 / 2] [- 5 / 2] =
          Inr (Some 25, Some (1 / 20), Some (1 / 20)))"
proof -
  have pos: "2 * beta cfg \<noteq> 0"
    using assms(5) by simp
  have d: "get_losses DPOLoss cfg xs = Inr (map (\<lambda>x. ln (1 + exp (- (beta cfg * x)))) xs)"
    using get_losses_spec_loss [OF assms(5), of DPOLoss xs] by (simp add: neg_ln_logistic)
  have h: "get_losses HingeLoss cfg xs =
       Inr (map (\<lambda>x. if beta cfg * x < 1 then 1 - beta cfg * x else 0) xs)"
    using get_losses_spec_loss [OF assms(5), of HingeLoss xs] by simp
  have i: "get_losses IPOLoss cfg xs = Inr (map (\<lambda>x. (x - 1 / (2 * beta cfg)) ^ 2) xs)"
    using pos by simp
  show ?thesis
    using forward_logits_same_length [OF assms(1-4)] forward_same_length [OF assms]
      get_losses_spec_loss [OF assms(5)] forward_example d h i
    by (simp add: tensor_mean_def)
qed

theorem forward_is_mean_of_variant_loss_witness:
  "length [- 1, 0 :: real] = 2 \<and> length [- 2, - 1 :: real] = 2 \<and>
   length [- 3 / 2, - 1 :: real] = 2 \<and> length [- 5 / 2, - 3 :: real] = 2 \<and>
   0 < beta example_config \<and> beta example_config = 1 / 10 \<and>
   forward_logits [- 1, 0] [- 2, - 1] [- 3 / 2, - 1] [- 5 / 2, - 3] = Inr [0, - 1] \<and>
   forward HingeLoss example_config [- 1, 0] [- 2, - 1] [- 3 / 2, - 1] [- 5 / 2, - 3] =
     Inr (Some (21 / 20), Some (3 / 40), Some (1 / 8)) \<and>
   get_losses HingeLoss example_config [10, - 20] = Inr [0, 3] \<and>
   tensor_mean [10, - 20] = Some (- 5) \<and>
   forward IPOLoss example_config [- 1] [- 2] [- 3 / 2] [- 5 / 2] =
     Inr (Some 25, Some (1 / 20), Some (1 / 20)) \<and>
   forward_logits [20, 30] [0, 0] [0, 0] [0, 0] = Inr [20, 30] \<and>
   forward HingeLoss example_config [20, 30] [0, 0] [0, 0] [0, 0] =
     Inr (Some 0, Some (5 / 2), Some 0) \<and>
   get_losses HingeLoss example_config [20, 30] = Inr [0, 0] \<and>
   forward DPOLoss example_config [10, - 10] [0, 0] [0, 0] [0, 0] =
     Inr (Some ((ln (1 + exp (- 1)) + ln (1 + exp 1)) / 2), Some 0, Some 0) \<and>
   get_losses DPOLoss example_config [10, - 10] = Inr [ln (1 + exp (- 1)), ln (1 + exp 1)] \<and>
   get_losses IPOLoss example_config [7, 5] = Inr [4, 0]"
proof -
  note c2 = forward_is_mean_of_variant_loss [where cfg = example_config and n = 2]
  have b: "beta example_config = 1 / 10"
    by (simp add: example_config_def)
  have 0: "length [- 1, 0 :: real] = 2 \<and> length [- 2, - 1 :: real] = 2 \<and>
    length [- 3 / 2, - 1 :: real] = 2 \<and> length [- 5 / 2, - 3 :: real] = 2 \<and>
    0 < beta example_config \<and> beta example_config = 1 / 10"
    by (simp add: b)
  have 1: "forward_logits [- 1, 0] [- 2, - 1] [- 3 / 2, - 1] [- 5 / 2, - 3] = Inr [0, - 1] \<and>
    forward HingeLoss example_config [- 1, 0] [- 2, - 1] [- 3 / 2, - 1] [- 5 / 2, - 3] =
      Inr (Some (21 / 20), Some (3 / 40), Some (1 / 8)) \<and>
    get_losses HingeLoss example_config [10, - 20] = Inr [0, 3] \<and>
    tensor_mean [10, - 20] = Some (- 5) \<and>
    forward IPOLoss example_config [- 1] [- 2] [- 3 / 2] [- 5 / 2] =
      Inr (Some 25, Some (1 / 20), Some (1 / 20))"
    using c2 [where policy_chosen = "[- 1, 0]" and policy_rejected = "[- 2, - 1]"
        and reference_chosen = "[- 3 / 2, - 1]" and reference_rejected = "[- 5 / 2, - 3]"
        and cls = HingeLoss and xs = "[10, - 20]"]
    by (simp add: b tensor_mean_def upt_rec)
  have 2: "forward_logits [20, 30] [0, 0] [0, 0] [0, 0] = Inr [20, 30] \<and>
    forward HingeLoss example_config [20, 30] [0, 0] [0, 0] [0, 0] =
      Inr (Some 0, Some (5 / 2), Some 0) \<and>
    get_losses HingeLoss example_config [20, 30] = Inr [0, 0]"
    using c2 [where policy_chosen = "[20, 30]" and policy_rejected = "[0, 0]"
        and reference_chosen = "[0, 0]" and reference_rejected = "[0, 0]"
        and cls = HingeLoss and xs = "[20, 30]"]
    by (simp add: b tensor_mean_def upt_rec)
  have 3: "forward DPOLoss example_config [10, - 10] [0, 0] [0, 0] [0, 0] =
      Inr (Some ((ln (1 + exp (- 1)) + ln (1 + exp 1)) / 2), Some 0, Some 0) \<and>
    get_losses DPOLoss example_config [10, - 10] = Inr [ln (1 + exp (- 1)), ln (1 + exp 1)] \<and>
    get_losses IPOLoss example_config [7, 5] = Inr [4, 0]"
    using c2 [where policy_chosen = "[10, - 10]" and policy_rejected = "[0, 0]"
        and reference_chosen = "[0, 0]" and reference_rejected = "[0, 0]"
        and cls = DPOLoss and xs = "[10, - 10]"]
      c2 [where policy_chosen = "[10, - 10]" and policy_rejected = "[0, 0]"
        and reference_chosen = "[0, 0]" and reference_rejected = "[0, 0]"
        and cls = IPOLoss and xs = "[7, 5]"]
    by (simp add: b tensor_mean_def upt_rec neg_ln_logistic)
  show ?thesis
    using 0 1 2 3 by blast
qed

section \<open>The loss factory\<close>

text \<open>
  Claim C8. \<open>Losses.get\<close> returns the class registered under the name for each of the
  three registered names, and the sigmoid class \<open>DPOLoss\<close> for every other name; it
  never fails.
\<close>

theorem Losses_get_default:
  "Losses_names = [''DPOLoss'', ''HingeLoss'', ''IPOLoss''] \<and>
   (name \<notin> set Losses_names \<longrightarrow> Losses_get name = DPOLoss) \<and>
   Losses_get ''DPOLoss'' = DPOLoss \<and>
   Losses_get ''HingeLoss'' = HingeLoss \<and>
   Losses_get ''IPOLoss'' = IPOLoss"
  by (simp add: Losses_get_def Losses_names_def losses_registry_def)

theorem Losses_get_default_witness:
  "''CrossEntropy'' \<notin> set Losses_names \<and> Losses_get ''CrossEntropy'' = DPOLoss"
  using Losses_get_default [of "''CrossEntropy''"]
  by (simp add: Losses_names_def losses_registry_def)

section \<open>The tokenizer setup\<close>

lemma resolve_mask_token_id_without_unk_and_mask:
  "unk_token_id tok = None \<Longrightarrow> mask_token_id tok = None \<Longrightarrow>
   resolve_mask_token_id tok = int (vocab_len tok) - 1"
  by (simp add: resolve_mask_token_id_def)

lemma get_tokenizer_example:
  "get_tokenizer example_tokenizer example_config = (example_tokenizer', example_config')"
  by (simp add: get_tokenizer_def example_tokenizer_def example_config_def
      example_tokenizer'_def example_config'_def resolve_mask_token_id_def Let_def)

text \<open>
  Claim C7 says that a tokenizer with neither an unknown-token id nor a mask-token id,
  but with a pad-token id, gets the pad-token id as its stored mask-token id. The code
  does not do that: the branch that assigns the pad-token id tests the mask-token id a
  second time and is never taken. On the example tokenizer (pad id 0, 300 tokens) the
  stored id is the last id of the vocabulary, 299.
\<close>

theorem get_tokenizer_mask_id_skips_pad:
  "unk_token_id (fst (get_tokenizer example_tokenizer example_config)) = None \<and>
   mask_token_id (fst (get_tokenizer example_tokenizer example_config)) = None \<and>
   pad_token_id (fst (get_tokenizer example_tokenizer example_config)) = Some 0 \<and>
   tokenizer_mask_token_id (snd (get_tokenizer example_tokenizer example_config)) = 299"
  unfolding get_tokenizer_example
  by (simp add: example_tokenizer'_def example_tokenizer_def example_config'_def pad_token_id_def)

section \<open>Slices and right-aligned assignment\<close>

lemma torch_full_Inr:
  "torch_full n v = Inr full \<longleftrightarrow> 0 \<le> n \<and> full = replicate (nat n) v"
  by (auto simp: torch_full_def)

lemma length_slice_from_le: "length (slice_from xs k) \<le> length xs"
  by (simp add: slice_from_def)

lemma assign_from_length:
  "assign_from dst k src = Inr out \<Longrightarrow> length out = length dst"
  using length_slice_from_le [of dst k]
  by (auto simp: assign_from_def Let_def split: if_splits)

lemma slice_from_neg_last:
  "0 < m \<Longrightarrow> slice_from xs (- int m) = drop (length xs - m) xs"
  by (simp add: slice_from_def nat_diff_distrib' of_nat_diff) 

lemma assign_from_right_aligned:
  assumes "src \<noteq> []" and "length src \<le> m"
  shows "assign_from (replicate m v) (- int (length src)) src =
           Inr (replicate (m - length src) v @ src)"
proof -
  have "0 < length src" using assms by simp
  then have "slice_from (replicate m v) (- int (length src)) =
        drop (m - length src) (replicate m v)"
    by (simp add: slice_from_neg_last)
  then show ?thesis
    using assms by (simp add: assign_from_def Let_def)
qed


lemma truncate_to_tail:
  assumes "0 < M"
  shows "(if M < int (length l) then slice_from l (- M) else l) = drop (length l - nat M) l"
proof -
  have "slice_from l (- M) = drop (length l - nat M) l"
    using assms slice_from_neg_last [of "nat M" l] by simp
  then show ?thesis by auto
qed

lemma right_aligned_nth:
  assumes "i < length l" and "length l - i \<le> m"
  shows "(replicate (m - length l) v @ drop (length l - m) l) ! (m - (length l - i)) = l ! i"
proof -
  define k a d where "k = m - (length l - i)" and "a = m - length l" and "d = length l - m"
  have 1: "\<not> k < a" and 2: "d + (k - a) = i" and 3: "d \<le> length l"
    using assms unfolding k_def a_def d_def by linarith+
  have "(replicate a v @ drop d l) ! k = drop d l ! (k - a)"
    using 1 by (simp add: nth_append)
  also have "\<dots> = l ! (d + (k - a))"
    using 3 by simp
  finally show ?thesis
    unfolding 2 unfolding k_def a_def d_def .
qed

lemma right_aligned_last:
  assumes "l \<noteq> []" and "0 < m"
  shows "last (replicate (m - length l) v @ drop (length l - m) l) = last l"
proof -
  have "length l - m < length l" using assms by (cases l) auto
  then show ?thesis by (simp add: last_append last_drop)
qed

section \<open>Labels\<close>

lemma length_masked_fill: "length (masked_fill t msk v) = min (length t) (length msk)"
  by (simp add: masked_fill_def)

lemma masked_fill_nth:
  "i < length t \<Longrightarrow> i < length msk \<Longrightarrow>
   masked_fill t msk v ! i = (if msk ! i then v else t ! i)"
  by (simp add: masked_fill_def)

lemma set_last_Inr: "set_last t v = Inr r \<longleftrightarrow> t \<noteq> [] \<and> r = butlast t @ [v]"
  by (auto simp: set_last_def)

lemma make_labels_Inr:
  assumes ok: "make_labels ds ids msk = Inr lab" and len: "length msk = length ids"
  obtains l2 where "length l2 = length ids"
    and "\<And>i. i < length ids \<Longrightarrow> (add_eos_token_to_answer (ds_cfg ds) \<Longrightarrow> Suc i < length ids) \<Longrightarrow>
           l2 ! i = (if mask_prompt_labels (ds_cfg ds) \<and> msk ! i then - 100 else ids ! i)"
    and "add_eos_token_to_answer (ds_cfg ds) \<Longrightarrow>
           ids \<noteq> [] \<and> Some (last l2) = eos_token_id (ds_tokenizer ds)"
    and "0 \<le> max_length (ds_cfg ds)" and "length lab = nat (max_length (ds_cfg ds))"
    and "0 < max_length (ds_cfg ds) \<Longrightarrow> ids \<noteq> [] \<Longrightarrow>
           lab = replicate (nat (max_length (ds_cfg ds)) - length ids) (- 100)
                 @ drop (length ids - nat (max_length (ds_cfg ds))) l2"
proof -
  define M where "M = max_length (ds_cfg ds)"
  define l1 where
    "l1 = (if mask_prompt_labels (ds_cfg ds) then masked_fill ids msk (- 100) else ids)"
  have l1_len: "length l1 = length ids"
    by (simp add: l1_def length_masked_fill len)
  have l1_nth: "l1 ! i = (if mask_prompt_labels (ds_cfg ds) \<and> msk ! i then - 100 else ids ! i)"
    if "i < length ids" for i
    using that by (simp add: l1_def masked_fill_nth len)
  obtain l2 where l2: "(if add_eos_token_to_answer (ds_cfg ds) then
                 (case eos_token_id (ds_tokenizer ds) of
                    None \<Rightarrow> Inl TypeError
                  | Some eos \<Rightarrow> set_last l1 eos)
               else Inr l1) = Inr l2"
    using ok unfolding make_labels_def Let_def l1_def [symmetric]
    by (auto split: sum.splits)
  obtain full where full: "torch_full M (- 100 :: int) = Inr full"
    and asg: "assign_from full
                (- int (length (if M < int (length ids) then slice_from l2 (- M) else l2)))
                (if M < int (length ids) then slice_from l2 (- M) else l2) = Inr lab"
    using ok l2 unfolding make_labels_def Let_def l1_def [symmetric] M_def [symmetric]
    by (auto split: sum.splits)
  have l2_cases: "(\<not> add_eos_token_to_answer (ds_cfg ds) \<and> l2 = l1) \<or>
      (add_eos_token_to_answer (ds_cfg ds) \<and> l1 \<noteq> [] \<and>
        (\<exists>eos. eos_token_id (ds_tokenizer ds) = Some eos \<and> l2 = butlast l1 @ [eos]))"
    using l2 by (auto simp: set_last_Inr split: if_splits option.splits)
  have l2_len: "length l2 = length ids"
  proof (cases "add_eos_token_to_answer (ds_cfg ds)")
    case True
    then have "l1 \<noteq> []" and "length l2 = Suc (length (butlast l1))"
      using l2_cases by auto
    then show ?thesis using l1_len by (cases l1 rule: rev_cases) auto
  next
    case False
    then show ?thesis using l2_cases l1_len by auto
  qed
  have M0: "0 \<le> M" and full_eq: "full = replicate (nat M) (- 100)"
    using full by (auto simp: torch_full_Inr)
  have lab_len: "length lab = nat M"
    using assign_from_length [OF asg] full_eq by simp
  show thesis
  proof (rule that [of l2])
    show "length l2 = length ids" by (rule l2_len)
    show "l2 ! i = (if mask_prompt_labels (ds_cfg ds) \<and> msk ! i then - 100 else ids ! i)"
      if "i < length ids" and "add_eos_token_to_answer (ds_cfg ds) \<Longrightarrow> Suc i < length ids" for i
    proof -
      have "l2 ! i = l1 ! i"
        using l2_cases that l1_len by (auto simp: nth_append nth_butlast)
      then show ?thesis using l1_nth [OF that(1)] by simp
    qed
    show "ids \<noteq> [] \<and> Some (last l2) = eos_token_id (ds_tokenizer ds)"
      if "add_eos_token_to_answer (ds_cfg ds)"
      using l2_cases that l1_len by auto
    show "0 \<le> max_length (ds_cfg ds)" using M0 by (simp add: M_def)
    show "length lab = nat (max_length (ds_cfg ds))" using lab_len by (simp add: M_def)
    show "lab = replicate (nat (max_length (ds_cfg ds)) - length ids) (- 100)
                 @ drop (length ids - nat (max_length (ds_cfg ds))) l2"
      if "0 < max_length (ds_cfg ds)" and "ids \<noteq> []"
    proof -
      have pos: "0 < M" using that by (simp add: M_def)
      define l3 where "l3 = drop (length l2 - nat M) l2"
      have "(if M < int (length ids) then slice_from l2 (- M) else l2) = l3"
        using truncate_to_tail [OF pos, of l2] by (simp add: l2_len l3_def)
      then have asg': "assign_from (replicate (nat M) (- 100)) (- int (length l3)) l3 = Inr lab"
        using asg full_eq by simp
      have "0 < nat M" and "0 < length l2"
        using pos that(2) l2_len by auto
      then have "length l2 - nat M < length l2" by linarith
      then have "l3 \<noteq> []" and "length l3 \<le> nat M"
        by (auto simp: l3_def)
      then have "lab = replicate (nat M - length l3) (- 100) @ l3"
        using asg' assign_from_right_aligned [of l3 "nat M" "- 100"] by simp
      moreover have "nat M - length l3 = nat M - length ids"
        using l2_len by (auto simp: l3_def)
      ultimately show ?thesis by (simp add: l3_def l2_len M_def)
    qed
  qed
qed

section \<open>Padding\<close>

lemma pad_tokens_unfold:
  "pad_tokens ids am M pad =
     (case pad of
        None \<Rightarrow> Inl TypeError
      | Some p \<Rightarrow>
         (case torch_full M p of
            Inl e \<Rightarrow> Inl e
          | Inr full \<Rightarrow>
             (case assign_from full
                     (- int (length (if M < int (length ids) then slice_from ids (- M) else ids)))
                     (if M < int (length ids) then slice_from ids (- M) else ids) of
                Inl e \<Rightarrow> Inl e
              | Inr out_ids \<Rightarrow>
                 (case torch_full M 0 of
                    Inl e \<Rightarrow> Inl e
                  | Inr zeros \<Rightarrow>
                     (case assign_from zeros
                             (- int (length (if M < int (length ids) then slice_from ids (- M)
                                             else ids)))
                             (if M < int (length ids) then slice_from am (- M) else am) of
                        Inl e \<Rightarrow> Inl e
                      | Inr out_am \<Rightarrow> Inr (out_ids, out_am))))))"
  unfolding pad_tokens_def by (cases "M < int (length ids)") simp_all

lemma pad_tokens_Inr:
  assumes "pad_tokens ids am M pad = Inr (out_ids, out_am)"
  shows "0 \<le> M \<and> length out_ids = nat M \<and> length out_am = nat M"
proof -
  obtain p where p: "pad = Some p"
    using assms by (cases pad) (simp_all add: pad_tokens_unfold)
  obtain full where full: "torch_full M p = Inr full"
    using assms by (cases "torch_full M p") (simp_all add: pad_tokens_unfold p)
  obtain zeros where zeros: "torch_full M (0 :: int) = Inr zeros"
    using full by (auto simp: torch_full_Inr)
  obtain k src where a1: "assign_from full k src = Inr out_ids"
    using assms by (simp add: pad_tokens_unfold p full zeros split: sum.splits)
  obtain k' src' where a2: "assign_from zeros k' src' = Inr out_am"
    using assms by (simp add: pad_tokens_unfold p full zeros split: sum.splits)
  show ?thesis
    using assign_from_length [OF a1] assign_from_length [OF a2] full zeros
    by (auto simp: torch_full_Inr)
qed


section \<open>The parts of an item\<close>

lemma read_data_Inr:
  assumes "read_data ds g idx = Some (Inr it, g')"
  obtains samples where "read_data_samples ds g idx = Some (Inr samples, g')"
    and "read_data_tensors ds samples = Inr it"
proof (cases "read_data_samples ds g idx")
  case None
  then show ?thesis using assms by (simp add: read_data_def)
next
  case (Some r)
  obtain res g1 where r: "r = (res, g1)" by (cases r)
  show ?thesis
  proof (cases res)
    case (Inl e)
    then show ?thesis using assms Some r by (simp add: read_data_def)
  next
    case (Inr samples)
    then have "read_data_tensors ds samples = Inr it" and "g1 = g'"
      using assms Some r by (simp_all add: read_data_def)
    then show ?thesis using that Some r Inr by simp
  qed
qed

lemma read_data_tensors_Inr:
  assumes "read_data_tensors ds samples = Inr it"
  shows "make_labels ds (flat_input_ids samples) (flat_prompt_mask samples) = Inr (labels it)"
    and "pad_tokens (flat_input_ids samples) (replicate (length (flat_input_ids samples)) 1)
           (max_length (ds_cfg ds)) (pad_token_id (ds_tokenizer ds))
         = Inr (input_ids it, attention_mask it)"
    and "pad_tokens (flat_input_ids (drop_last_answer samples))
           (replicate (length (flat_input_ids (drop_last_answer samples))) 1)
           (max_length_prompt (ds_cfg ds)) (pad_token_id (ds_tokenizer ds))
         = Inr (prompt_input_ids it, prompt_attention_mask it)"
proof -
  let ?L = "make_labels ds (flat_input_ids samples) (flat_prompt_mask samples)"
  let ?P = "pad_tokens (flat_input_ids samples) (replicate (length (flat_input_ids samples)) 1)
           (max_length (ds_cfg ds)) (pad_token_id (ds_tokenizer ds))"
  let ?Q = "pad_tokens (flat_input_ids (drop_last_answer samples))
           (replicate (length (flat_input_ids (drop_last_answer samples))) 1)
           (max_length_prompt (ds_cfg ds)) (pad_token_id (ds_tokenizer ds))"
  obtain lab where lab: "?L = Inr lab"
    using assms by (cases ?L) (simp_all add: read_data_tensors_def)
  obtain a b where ab: "?P = Inr (a, b)"
    using assms lab by (cases ?P) (auto simp add: read_data_tensors_def)
  obtain c d where cd: "?Q = Inr (c, d)"
    using assms lab ab by (cases ?Q) (auto simp add: read_data_tensors_def)
  have "it = \<lparr>labels = lab, input_ids = a, attention_mask = b,
                 prompt_input_ids = c, prompt_attention_mask = d\<rparr>"
    using assms lab ab cd by (simp add: read_data_tensors_def)
  then show "?L = Inr (labels it)" "?P = Inr (input_ids it, attention_mask it)"
    "?Q = Inr (prompt_input_ids it, prompt_attention_mask it)"
    using lab ab cd by simp_all
qed

lemma length_flat_prompt_mask: "length (flat_prompt_mask samples) = length (flat_input_ids samples)"
  by (induction samples) (auto simp: flat_prompt_mask_def flat_input_ids_def)

lemma flat_prompt_mask_last:
  assumes "a \<noteq> []"
  shows "\<not> last (flat_prompt_mask (pre @ [(p, a)]))"
  using assms by (simp add: flat_prompt_mask_def last_append)

lemma flat_input_ids_nonempty:
  assumes "a \<noteq> []"
  shows "flat_input_ids (pre @ [(p, a)]) \<noteq> []"
  using assms by (simp add: flat_input_ids_def)

section \<open>The samples of an item\<close>

lemma walk_body_Inr:
  assumes "(case py_index pids parent_idx of
        Inl e \<Rightarrow> Some (Inl e, g)
      | Inr pid \<Rightarrow>
         (case df_id_to_idx ds pid of
            None \<Rightarrow> Some (Inr samples, g)
          | Some p \<Rightarrow>
             (if ds_mode ds = ''train'' then
                (case np_random_random g of
                   (u, g') \<Rightarrow>
                     if u < skip_parent_probability (ds_cfg ds) then Some (Inr samples, g')
                     else (case get_sample ds (int p) of
                             Inl e \<Rightarrow> Some (Inl e, g')
                           | Inr s \<Rightarrow> walk ds pids g' (int p) (s # samples)))
              else (case get_sample ds (int p) of
                      Inl e \<Rightarrow> Some (Inl e, g)
                    | Inr s \<Rightarrow> walk ds pids g (int p) (s # samples))))) = Some (Inr out, g2)"
  obtains "out = samples"
  | p s g1 where "get_sample ds (int p) = Inr s"
      and "walk ds pids g1 (int p) (s # samples) = Some (Inr out, g2)"
proof (cases "py_index pids parent_idx")
  case (Inl e)
  then show ?thesis using assms by simp
next
  case (Inr pid)
  note pid = this
  show ?thesis
  proof (cases "df_id_to_idx ds pid")
    case None
    then show ?thesis using assms pid that(1) by simp
  next
    case (Some p)
    note p = this
    show ?thesis
    proof (cases "get_sample ds (int p)")
      case (Inl e)
      then show ?thesis
        using assms pid p that(1)
        by (simp add: np_random_random_def split: if_splits)
    next
      case (Inr s)
      then show ?thesis
        using assms pid p that(1) that(2) [of p s]
        by (simp add: np_random_random_def split: if_splits)
    qed
  qed
qed


lemma parent_walk_prepends:
  assumes "parent_walk ds pids g parent_idx samples = Some r"
  shows "\<forall>out g'. r = (Inr out, g') \<longrightarrow>
           (\<exists>pre. out = pre @ samples \<and> (\<forall>s \<in> set pre. \<exists>i. get_sample ds i = Inr s))"
proof (rule parent_walk.raw_induct [OF _ assms], goal_cases)
  case (1 walk ds pids g parent_idx samples r)
  show ?case
  proof (intro allI impI)
    fix out g'
    assume r: "r = (Inr out, g')"
    from 1(2) [unfolded r]
    show "\<exists>pre. out = pre @ samples \<and> (\<forall>s \<in> set pre. \<exists>i. get_sample ds i = Inr s)"
    proof (cases rule: walk_body_Inr)
      case 1
      then show ?thesis by simp
    next
      case (2 p s g1)
      from 1(1) [OF 2(2)] obtain pre where "out = pre @ s # samples"
        and "\<forall>x \<in> set pre. \<exists>i. get_sample ds i = Inr x"
        by blast
      then show ?thesis
        using 2(1) by (intro exI [of _ "pre @ [s]"]) auto
    qed
  qed
qed

lemma random_parent_prepends:
  assumes "random_parent ds g samples = (Inr out, g')"
  shows "\<exists>pre. out = pre @ samples \<and> (\<forall>s \<in> set pre. \<exists>i. get_sample ds i = Inr s)"
proof (cases "ds_mode ds = ''train'' \<and>
              rnd_uniform g (rnd_used g) < random_parent_probability (ds_cfg ds)")
  case False
  then have "out = samples"
    using assms by (auto simp: random_parent_def np_random_random_def split: if_splits)
  then show ?thesis by simp
next
  case True
  define g1 where "g1 = g\<lparr>rnd_used := Suc (rnd_used g)\<rparr>"
  have rp: "random_parent ds g samples =
      (case np_random_randint g1 (len ds) of
         (Inl e, g2) \<Rightarrow> (Inl e, g2)
       | (Inr rnd_idx, g2) \<Rightarrow>
           (case get_sample ds (int rnd_idx) of
              Inl e \<Rightarrow> (Inl e, g2)
            | Inr s \<Rightarrow> (Inr (s # samples), g2)))"
    using True by (simp add: random_parent_def np_random_random_def g1_def)
  obtain res g2 where ri: "np_random_randint g1 (len ds) = (res, g2)"
    by (cases "np_random_randint g1 (len ds)")
  show ?thesis
  proof (cases res)
    case (Inl e)
    then show ?thesis using assms rp ri by simp
  next
    case (Inr rnd_idx)
    then show ?thesis
      using assms rp ri by (cases "get_sample ds (int rnd_idx)") auto
  qed
qed

lemma read_data_samples_Inr:
  assumes "read_data_samples ds g idx = Some (Inr out, g')"
  obtains pre s where "out = pre @ [s]" and "get_sample ds idx = Inr s"
    and "\<forall>x \<in> set pre. \<exists>i. get_sample ds i = Inr x"
proof -
  obtain s where s: "get_sample ds idx = Inr s"
    using assms by (cases "get_sample ds idx") (simp_all add: read_data_samples_def)
  define w where "w = (case parent_ids ds of None \<Rightarrow> Some (Inr [s], g)
                | Some pids \<Rightarrow> parent_walk ds pids g idx [s])"
  have rds: "read_data_samples ds g idx =
      (case w of None \<Rightarrow> None
       | Some (Inl e, g1) \<Rightarrow> Some (Inl e, g1)
       | Some (Inr samples, g1) \<Rightarrow> Some (random_parent ds g1 samples))"
    by (simp add: read_data_samples_def s w_def)
  obtain res g1 where w: "w = Some (res, g1)"
    using assms rds by (cases w) auto
  obtain mid where res: "res = Inr mid"
    using assms rds w by (cases res) auto
  have out: "random_parent ds g1 mid = (Inr out, g')"
    using assms rds w res by simp
  have "\<exists>pre. mid = pre @ [s] \<and> (\<forall>x \<in> set pre. \<exists>i. get_sample ds i = Inr x)"
  proof (cases "parent_ids ds")
    case None
    then show ?thesis using w res by (simp add: w_def)
  next
    case (Some pids)
    then have "parent_walk ds pids g idx [s] = Some (Inr mid, g1)"
      using w res by (simp add: w_def)
    from parent_walk_prepends [OF this] show ?thesis by blast
  qed
  then obtain pre1 where pre1: "mid = pre1 @ [s]"
    "\<forall>x \<in> set pre1. \<exists>i. get_sample ds i = Inr x"
    by blast
  from random_parent_prepends [OF out] obtain pre2 where pre2: "out = pre2 @ mid"
    "\<forall>x \<in> set pre2. \<exists>i. get_sample ds i = Inr x"
    by blast
  have "out = (pre2 @ pre1) @ [s]"
    using pre1(1) pre2(1) by simp
  moreover have "\<forall>x \<in> set (pre2 @ pre1). \<exists>i. get_sample ds i = Inr x"
    using pre1(2) pre2(2) by auto
  ultimately show thesis using s that by blast
qed

lemma get_sample_eos:
  assumes "get_sample ds i = Inr (p, a)" and "add_eos_token_to_answer (ds_cfg ds)"
  shows "a \<noteq> [] \<and> Some (last a) = eos_token_id (ds_tokenizer ds)"
proof -
  obtain x where "py_index (prompts ds) i = Inr x"
    using assms(1) by (cases "py_index (prompts ds) i") (simp_all add: get_sample_def)
  moreover obtain y where "py_index (answers ds) i = Inr y"
    using assms(1) calculation
    by (cases "py_index (answers ds) i") (simp_all add: get_sample_def)
  ultimately show ?thesis
    using assms by (cases "eos_token_id (ds_tokenizer ds)") (auto simp: get_sample_def Let_def)
qed

section \<open>Properties of an item\<close>

lemma make_labels_shape:
  assumes "make_labels ds ids msk = Inr lab" and "length msk = length ids"
  shows "\<exists>l2. length l2 = length ids \<and>
    (\<forall>i. i < length ids \<longrightarrow> (add_eos_token_to_answer (ds_cfg ds) \<longrightarrow> Suc i < length ids) \<longrightarrow>
           l2 ! i = (if mask_prompt_labels (ds_cfg ds) \<and> msk ! i then - 100 else ids ! i)) \<and>
    (add_eos_token_to_answer (ds_cfg ds) \<longrightarrow>
           ids \<noteq> [] \<and> Some (last l2) = eos_token_id (ds_tokenizer ds)) \<and>
    0 \<le> max_length (ds_cfg ds) \<and> length lab = nat (max_length (ds_cfg ds)) \<and>
    (0 < max_length (ds_cfg ds) \<longrightarrow> ids \<noteq> [] \<longrightarrow>
           lab = replicate (nat (max_length (ds_cfg ds)) - length ids) (- 100)
                 @ drop (length ids - nat (max_length (ds_cfg ds))) l2)"
proof (rule make_labels_Inr [OF assms], goal_cases)
  case (1 l2)
  show ?case
    by (rule exI [of _ l2]) (use 1 in simp)
qed

text \<open>
  Claim C5. Every item that \<open>__getitem__\<close> returns has \<open>input_ids\<close>,
  \<open>attention_mask\<close> and \<open>labels\<close> of length exactly \<open>max_length\<close>, and
  \<open>prompt_input_ids\<close> and \<open>prompt_attention_mask\<close> of length exactly
  \<open>max_length_prompt\<close>, whatever the length of the assembled chain, in either mode and
  for every random source.
\<close>

theorem item_tensor_lengths:
  assumes "getitem ds g idx = Some (Inr it, g')"
  shows "int (length (input_ids it)) = max_length (ds_cfg ds) \<and>
         int (length (attention_mask it)) = max_length (ds_cfg ds) \<and>
         int (length (labels it)) = max_length (ds_cfg ds) \<and>
         int (length (prompt_input_ids it)) = max_length_prompt (ds_cfg ds) \<and>
         int (length (prompt_attention_mask it)) = max_length_prompt (ds_cfg ds)"
proof -
  from assms obtain samples where t: "read_data_tensors ds samples = Inr it"
    unfolding getitem_def by (rule read_data_Inr)
  have "length (flat_prompt_mask samples) = length (flat_input_ids samples)"
    by (rule length_flat_prompt_mask)
  from make_labels_shape [OF read_data_tensors_Inr(1) [OF t] this]
  have "0 \<le> max_length (ds_cfg ds)" "length (labels it) = nat (max_length (ds_cfg ds))"
    by blast+
  then show ?thesis
    using pad_tokens_Inr [OF read_data_tensors_Inr(2) [OF t]]
      pad_tokens_Inr [OF read_data_tensors_Inr(3) [OF t]]
    by simp
qed

text \<open>
  Claim C3. When the end-of-sequence id is appended to answers, the last position of the
  labels of every returned item holds the tokenizer's end-of-sequence id: whatever the pad
  id is (also when it is the end-of-sequence id), with or without prompt-label masking, and
  after the truncation to \<open>max_length\<close>. The labels have a last position as soon as
  \<open>max_length\<close> is positive.
\<close>

theorem labels_end_with_eos:
  assumes "getitem ds g idx = Some (Inr it, g')"
    and "add_eos_token_to_answer (ds_cfg ds)"
  shows "(0 < max_length (ds_cfg ds) \<longrightarrow> labels it \<noteq> []) \<and>
         (labels it \<noteq> [] \<longrightarrow> Some (last (labels it)) = eos_token_id (ds_tokenizer ds))"
proof -
  from assms(1) obtain samples where t: "read_data_tensors ds samples = Inr it"
    unfolding getitem_def by (rule read_data_Inr)
  let ?ids = "flat_input_ids samples"
  have len: "length (flat_prompt_mask samples) = length ?ids"
    by (rule length_flat_prompt_mask)
  from make_labels_shape [OF read_data_tensors_Inr(1) [OF t] len]
  obtain l2 where l2: "length l2 = length ?ids"
    and eos: "?ids \<noteq> [] \<and> Some (last l2) = eos_token_id (ds_tokenizer ds)"
    and lab_len: "length (labels it) = nat (max_length (ds_cfg ds))"
    and lab: "0 < max_length (ds_cfg ds) \<Longrightarrow>
           labels it = replicate (nat (max_length (ds_cfg ds)) - length ?ids) (- 100)
                 @ drop (length ?ids - nat (max_length (ds_cfg ds))) l2"
    using assms(2) by blast
  have "Some (last (labels it)) = eos_token_id (ds_tokenizer ds)" if "labels it \<noteq> []"
  proof -
    have "0 < length (labels it)" using that by simp
    then have pos: "0 < max_length (ds_cfg ds)" unfolding lab_len by simp
    have "l2 \<noteq> []" using eos l2 by auto
    then have "last (labels it) = last l2"
      using lab [OF pos] right_aligned_last [of l2 "nat (max_length (ds_cfg ds))" "- 100"] pos
      by (simp add: l2)
    then show ?thesis using eos by simp
  qed
  then show ?thesis using lab_len by auto
qed

text \<open>
  Claim C4. With prompt-label masking on, every position \<open>i\<close> of the flat sequence where
  the prompt mask is true, and that the truncation keeps (it is among the last \<open>max_length\<close>
  positions), holds the ignore value \<open>-100\<close> in the returned labels, at the position
  that is as far from the end as \<open>i\<close> is in the flat sequence.
\<close>

theorem prompt_labels_ignored:
  assumes "getitem ds g idx = Some (Inr it, g')"
    and "mask_prompt_labels (ds_cfg ds)"
  shows "\<exists>samples. read_data_samples ds g idx = Some (Inr samples, g') \<and>
           (\<forall>i < length (flat_input_ids samples).
              flat_prompt_mask samples ! i \<longrightarrow>
              length (flat_input_ids samples) - i \<le> nat (max_length (ds_cfg ds)) \<longrightarrow>
              labels it ! (nat (max_length (ds_cfg ds)) - (length (flat_input_ids samples) - i))
                = - 100)"
proof -
  from assms(1) obtain samples where s: "read_data_samples ds g idx = Some (Inr samples, g')"
    and t: "read_data_tensors ds samples = Inr it"
    unfolding getitem_def by (rule read_data_Inr)
  let ?ids = "flat_input_ids samples" and ?msk = "flat_prompt_mask samples"
  let ?m = "nat (max_length (ds_cfg ds))"
  have len: "length ?msk = length ?ids"
    by (rule length_flat_prompt_mask)
  from make_labels_shape [OF read_data_tensors_Inr(1) [OF t] len]
  obtain l2 where l2: "length l2 = length ?ids"
    and nth: "\<And>i. i < length ?ids \<Longrightarrow>
           (add_eos_token_to_answer (ds_cfg ds) \<Longrightarrow> Suc i < length ?ids) \<Longrightarrow>
           l2 ! i = (if mask_prompt_labels (ds_cfg ds) \<and> ?msk ! i then - 100 else ?ids ! i)"
    and lab: "0 < max_length (ds_cfg ds) \<Longrightarrow> ?ids \<noteq> [] \<Longrightarrow>
           labels it = replicate (?m - length ?ids) (- 100) @ drop (length ?ids - ?m) l2"
    by blast
  have last_answer: "\<not> last ?msk" if "add_eos_token_to_answer (ds_cfg ds)"
  proof -
    from s obtain pre p a where "samples = pre @ [(p, a)]" and "get_sample ds idx = Inr (p, a)"
      by (rule read_data_samples_Inr) (metis surj_pair)
    then show ?thesis
      using get_sample_eos [OF _ that] flat_prompt_mask_last by blast
  qed
  have "labels it ! (?m - (length ?ids - i)) = - 100"
    if i: "i < length ?ids" and m: "?msk ! i" and fit: "length ?ids - i \<le> ?m" for i
  proof -
    have pos: "0 < max_length (ds_cfg ds)" and ne: "?ids \<noteq> []"
      using i fit by auto
    have "Suc i < length ?ids" if e: "add_eos_token_to_answer (ds_cfg ds)"
    proof (rule ccontr)
      assume "\<not> Suc i < length ?ids"
      then have "i = length ?msk - 1" using i len by simp
      moreover have "?msk \<noteq> []" using ne len by auto
      ultimately have "?msk ! i = last ?msk" by (simp add: last_conv_nth)
      then show False using m last_answer [OF e] by simp
    qed
    then have "l2 ! i = - 100"
      using nth [OF i] m assms(2) by simp
    moreover have "labels it ! (?m - (length l2 - i)) = l2 ! i"
      unfolding lab [OF pos ne] l2 [symmetric]
      by (rule right_aligned_nth) (use i fit l2 in simp_all)
    ultimately show ?thesis by (simp add: l2)
  qed
  then show ?thesis using s by blast
qed

section \<open>The walk outside train mode\<close>

lemma parent_walk_unfold_validation:
  assumes "ds_mode ds \<noteq> ''train''"
  shows "parent_walk ds pids g parent_idx samples =
     (case py_index pids parent_idx of
        Inl e \<Rightarrow> Some (Inl e, g)
      | Inr pid \<Rightarrow>
         (case df_id_to_idx ds pid of
            None \<Rightarrow> Some (Inr samples, g)
          | Some p \<Rightarrow>
             (case get_sample ds (int p) of
                Inl e \<Rightarrow> Some (Inl e, g)
              | Inr s \<Rightarrow> parent_walk ds pids g (int p) (s # samples))))"
  by (subst parent_walk.simps) (simp add: assms split: sum.splits option.splits)

lemma parent_walk_ignores_random_source:
  assumes "parent_walk ds pids g parent_idx samples = Some y"
  shows "ds_mode ds \<noteq> ''train'' \<longrightarrow>
           snd y = g \<and> (\<forall>h. parent_walk ds pids h parent_idx samples = Some (fst y, h))"
proof (rule parent_walk.raw_induct [OF _ assms], goal_cases)
  case (1 walk ds pids g parent_idx samples y)
  show ?case
  proof
    assume val: "ds_mode ds \<noteq> ''train''"
    note unf = parent_walk_unfold_validation [OF val, of pids _ parent_idx samples]
    show "snd y = g \<and> (\<forall>h. parent_walk ds pids h parent_idx samples = Some (fst y, h))"
    proof (cases "py_index pids parent_idx")
      case (Inl e)
      then show ?thesis using 1(2) by (auto simp: unf)
    next
      case (Inr pid)
      note pid = this
      show ?thesis
      proof (cases "df_id_to_idx ds pid")
        case None
        then show ?thesis using 1(2) pid by (auto simp: unf)
      next
        case (Some p)
        note p = this
        show ?thesis
        proof (cases "get_sample ds (int p)")
          case (Inl e)
          then show ?thesis using 1(2) pid p val by (auto simp: unf)
        next
          case (Inr s)
          then have "walk ds pids g (int p) (s # samples) = Some y"
            using 1(2) pid p val by simp
          from 1(1) [OF this] val
          have "snd y = g" and "\<And>h. parent_walk ds pids h (int p) (s # samples) = Some (fst y, h)"
            by auto
          then show ?thesis using pid p Inr by (simp add: unf)
        qed
      qed
    qed
  qed
qed

lemma parent_walk_validation:
  assumes "ds_mode ds \<noteq> ''train''"
  shows "parent_walk ds pids h parent_idx samples =
           map_option (\<lambda>(r, _). (r, h)) (parent_walk ds pids g parent_idx samples)"
proof (cases "parent_walk ds pids g parent_idx samples")
  case (Some y)
  then show ?thesis
    using parent_walk_ignores_random_source [OF Some] assms by (cases y) auto
next
  case None
  have "parent_walk ds pids h parent_idx samples = None"
  proof (rule ccontr)
    assume "parent_walk ds pids h parent_idx samples \<noteq> None"
    then obtain y where "parent_walk ds pids h parent_idx samples = Some y" by auto
    from parent_walk_ignores_random_source [OF this] assms
    have "parent_walk ds pids g parent_idx samples = Some (fst y, g)" by auto
    then show False using None by simp
  qed
  then show ?thesis using None by simp
qed

lemma read_data_samples_validation:
  assumes "ds_mode ds \<noteq> ''train''"
  shows "read_data_samples ds h idx =
           map_option (\<lambda>(r, _). (r, h)) (read_data_samples ds g idx)"
proof (cases "get_sample ds idx")
  case (Inl e)
  then show ?thesis by (simp add: read_data_samples_def)
next
  case (Inr s)
  show ?thesis
  proof (cases "parent_ids ds")
    case None
    then show ?thesis using Inr assms by (simp add: read_data_samples_def random_parent_def)
  next
    case (Some pids)
    have rp: "random_parent ds g1 samples = (Inr samples, g1)" for g1 samples
      using assms by (simp add: random_parent_def)
    have unf: "read_data_samples ds g1 idx =
        (case parent_walk ds pids g1 idx [s] of
           None \<Rightarrow> None
         | Some (Inl e, g2) \<Rightarrow> Some (Inl e, g2)
         | Some (Inr samples, g2) \<Rightarrow> Some (Inr samples, g2))" for g1
      by (simp add: read_data_samples_def Inr Some rp split: option.splits sum.splits)
    have w: "parent_walk ds pids h idx [s] =
               map_option (\<lambda>(r, _). (r, h)) (parent_walk ds pids g idx [s])"
      by (rule parent_walk_validation [OF assms])
    show ?thesis
    proof (cases "parent_walk ds pids g idx [s]")
      case None
      then show ?thesis using w by (simp add: unf)
    next
      case (Some y)
      obtain r g2 where "y = (r, g2)" by (cases y)
      then show ?thesis using w Some by (cases r) (simp_all add: unf)
    qed
  qed
qed

lemma read_data_validation:
  assumes "ds_mode ds \<noteq> ''train''"
  shows "read_data ds h idx = map_option (\<lambda>(r, _). (r, h)) (read_data ds g idx)"
  unfolding read_data_def
  by (subst read_data_samples_validation [OF assms, of h idx g])
    (auto split: option.splits sum.splits)

text \<open>
  Claim C10. In validation mode an item does not depend on the random source: two calls
  at one index, from any two states of the source, have the same outcome (the same item,
  the same exception, or no result at all), and a call hands the source back as it found
  it, no draw being made.
\<close>

theorem validation_items_deterministic:
  assumes "ds_mode ds = ''validation''"
  shows "map_option fst (getitem ds g idx) = map_option fst (getitem ds h idx) \<and>
         (\<forall>r g'. getitem ds g idx = Some (r, g') \<longrightarrow> g' = g)"
proof -
  have val: "ds_mode ds \<noteq> ''train''" using assms by simp
  have 1: "getitem ds h idx = map_option (\<lambda>(r, _). (r, h)) (getitem ds g idx)" for h
    unfolding getitem_def by (rule read_data_validation [OF val])
  have "map_option fst (getitem ds h idx) = map_option fst (getitem ds g idx)"
    by (subst 1) (auto simp: option.map_comp o_def split_def intro: option.map_cong)
  moreover have "g' = g" if "getitem ds g idx = Some (r, g')" for r g'
    using 1 [of g] that by auto
  ultimately show ?thesis by auto
qed

section \<open>Termination of the parent walk\<close>

lemma parent_of_Some_pids:
  assumes "parent_ids ds = Some pids"
  shows "parent_of ds i =
           (case py_index pids (int i) of Inl e \<Rightarrow> None | Inr pid \<Rightarrow> df_id_to_idx ds pid)"
  by (simp add: parent_of_def assms)

lemma parent_walk_at_root:
  assumes "parent_ids ds = Some pids" and "parent_of ds i = None"
  shows "\<exists>r. parent_walk ds pids g (int i) samples = Some r"
  using assms(2) unfolding parent_of_Some_pids [OF assms(1)]
  by (subst parent_walk.simps) (auto split: sum.splits)

lemma parent_walk_at_child:
  assumes "parent_ids ds = Some pids" and "parent_of ds i = Some p"
    and "\<And>g samples. \<exists>r. parent_walk ds pids g (int p) samples = Some r"
  shows "\<exists>r. parent_walk ds pids g (int i) samples = Some r"
proof -
  obtain pid where pid: "py_index pids (int i) = Inr pid" and p: "df_id_to_idx ds pid = Some p"
    using assms(2) unfolding parent_of_Some_pids [OF assms(1)]
    by (auto split: sum.splits)
  show ?thesis
  proof (cases "get_sample ds (int p)")
    case (Inl e)
    then show ?thesis
      by (subst parent_walk.simps) (simp add: pid p np_random_random_def)
  next
    case (Inr s)
    then show ?thesis
      using assms(3) [of _ "s # samples"]
      by (subst parent_walk.simps) (simp add: pid p np_random_random_def)
  qed
qed

lemma parent_walk_terminates:
  assumes "chain_ends ds i" and "parent_ids ds = Some pids"
  shows "\<exists>r. parent_walk ds pids g (int i) samples = Some r"
  using assms(1)
proof (induction arbitrary: g samples)
  case (root i)
  then show ?case by (rule parent_walk_at_root [OF assms(2)])
next
  case (step i p)
  show ?case
    by (rule parent_walk_at_child [OF assms(2) step(1)]) (rule step.IH)
qed

lemma read_data_samples_terminates:
  assumes "chain_ends ds i"
  shows "\<exists>r. read_data_samples ds g (int i) = Some r"
proof (cases "get_sample ds (int i)")
  case (Inl e)
  then show ?thesis by (simp add: read_data_samples_def)
next
  case (Inr s)
  show ?thesis
  proof (cases "parent_ids ds")
    case None
    then show ?thesis using Inr by (simp add: read_data_samples_def)
  next
    case (Some pids)
    from parent_walk_terminates [OF assms Some]
    obtain res g1 where "parent_walk ds pids g (int i) [s] = Some (res, g1)"
      by (metis surj_pair)
    then show ?thesis
      using Inr Some by (cases res) (simp_all add: read_data_samples_def)
  qed
qed

lemma getitem_terminates:
  assumes "chain_ends ds i"
  shows "\<exists>r. getitem ds g (int i) = Some r"
proof -
  from read_data_samples_terminates [OF assms]
  obtain res g1 where "read_data_samples ds g (int i) = Some (res, g1)"
    by (metis surj_pair)
  then show ?thesis
    by (cases res) (simp_all add: getitem_def read_data_def)
qed

section \<open>Walks that do not end\<close>

lemma py_index_in_range: "i < length xs \<Longrightarrow> py_index xs (int i) = Inr (xs ! i)"
  by (simp add: py_index_def)

lemma get_sample_in_range:
  assumes "wf_dataset ds" and "eos_available ds" and "i < len ds"
  shows "\<exists>s. get_sample ds (int i) = Inr s"
proof -
  have "i < length (prompts ds)" "i < length (answers ds)"
    using assms(1,3) by (simp_all add: wf_dataset_def)
  then show ?thesis
    using assms(2)
    by (cases "eos_token_id (ds_tokenizer ds)")
      (simp_all add: get_sample_def py_index_in_range eos_available_def Let_def)
qed

lemma wf_parent_in_range:
  assumes "wf_dataset ds" and "parent_ids ds = Some pids" and "i < len ds"
    and "df_id_to_idx ds (pids ! i) = Some p"
  shows "p < len ds"
proof -
  have "length pids = len ds" and
    "\<forall>pid \<in> set pids. case df_id_to_idx ds pid of None \<Rightarrow> True | Some p \<Rightarrow> p < len ds"
    using assms(1,2) by (simp_all add: wf_dataset_def list_all_iff)
  moreover then have "pids ! i \<in> set pids" using assms(3) by simp
  ultimately show ?thesis using assms(4) by fastforce
qed

lemma parent_walk_returns_only_on_ending_chains:
  assumes "parent_walk ds pids g parent_idx samples = Some y"
  shows "wf_dataset ds \<and> eos_available ds \<and> ds_mode ds \<noteq> ''train'' \<and> parent_ids ds = Some pids
           \<longrightarrow> (\<forall>i. parent_idx = int i \<and> i < len ds \<longrightarrow> chain_ends ds i)"
proof (rule parent_walk.raw_induct [OF _ assms], goal_cases)
  case (1 walk ds pids g parent_idx samples y)
  show ?case
  proof (intro impI allI, elim conjE)
    fix i
    assume wf: "wf_dataset ds" and eos: "eos_available ds" and val: "ds_mode ds \<noteq> ''train''"
      and pids: "parent_ids ds = Some pids" and idx: "parent_idx = int i" and i: "i < len ds"
    have "length pids = len ds" using wf pids by (simp add: wf_dataset_def)
    then have pid: "py_index pids parent_idx = Inr (pids ! i)"
      using i idx by (simp add: py_index_in_range)
    have po: "parent_of ds i = df_id_to_idx ds (pids ! i)"
      using pid idx by (simp add: parent_of_Some_pids [OF pids])
    show "chain_ends ds i"
    proof (cases "df_id_to_idx ds (pids ! i)")
      case None
      then show ?thesis using po by (simp add: chain_ends.root)
    next
      case (Some p)
      have p: "p < len ds" by (rule wf_parent_in_range [OF wf pids i Some])
      from get_sample_in_range [OF wf eos p]
      obtain s where s: "get_sample ds (int p) = Inr s" by blast
      have "walk ds pids g (int p) (s # samples) = Some y"
        using 1(2) pid Some s val by simp
      from 1(1) [OF this] wf eos val pids p have "chain_ends ds p" by simp
      then show ?thesis using po Some by (auto intro: chain_ends.step)
    qed
  qed
qed

lemma getitem_never_returns:
  assumes wf: "wf_dataset ds" and eos: "eos_available ds" and val: "ds_mode ds \<noteq> ''train''"
    and i: "i < len ds" and nope: "\<not> chain_ends ds i"
  shows "getitem ds g (int i) = None"
proof -
  obtain pids where pids: "parent_ids ds = Some pids"
    using nope by (cases "parent_ids ds") (auto simp: parent_of_def intro: chain_ends.root)
  from get_sample_in_range [OF wf eos i]
  obtain s where s: "get_sample ds (int i) = Inr s" by blast
  have "parent_walk ds pids g (int i) [s] = None"
  proof (rule ccontr)
    assume "parent_walk ds pids g (int i) [s] \<noteq> None"
    then obtain y where "parent_walk ds pids g (int i) [s] = Some y" by auto
    from parent_walk_returns_only_on_ending_chains [OF this] wf eos val pids i
    show False using nope by simp
  qed
  then show ?thesis
    by (simp add: getitem_def read_data_def read_data_samples_def s pids)
qed

lemma ancestor_Suc_right:
  "ancestor ds (Suc n) i =
     (case ancestor ds n i of None \<Rightarrow> None | Some j \<Rightarrow> parent_of ds j)"
proof (induction n arbitrary: i)
  case 0
  show ?case by (simp split: option.splits)
next
  case (Suc n)
  show ?case
  proof (cases "parent_of ds i")
    case None
    then show ?thesis by simp
  next
    case (Some p)
    then show ?thesis using Suc.IH [of p] by simp
  qed
qed

lemma chain_ends_parent:
  assumes "chain_ends ds i" and "parent_of ds i = Some p"
  shows "chain_ends ds p"
  using assms by (cases rule: chain_ends.cases) simp_all

lemma chain_ends_ancestor:
  assumes "chain_ends ds i" and "ancestor ds m i = Some j"
  shows "chain_ends ds j"
  using assms
proof (induction m arbitrary: i)
  case 0
  then show ?case by simp
next
  case (Suc m)
  then obtain p where p: "parent_of ds i = Some p" and "ancestor ds m p = Some j"
    by (cases "parent_of ds i") simp_all
  then show ?case
    using Suc.IH [of p] chain_ends_parent [OF Suc.prems(1) p] by simp
qed

lemma chain_ends_not_on_cycle:
  assumes "chain_ends ds j"
  shows "ancestor ds (Suc n) j \<noteq> Some j"
  using assms
proof (induction arbitrary: n)
  case (root j)
  then show ?case by simp
next
  case (step j p)
  show ?case
  proof
    assume "ancestor ds (Suc n) j = Some j"
    then have "ancestor ds n p = Some j" using step(1) by simp
    then have "ancestor ds (Suc n) p = Some p"
      using step(1) by (simp add: ancestor_Suc_right del: ancestor.simps)
    then show False using step.IH by simp
  qed
qed

lemma cyclic_chain_never_ends:
  assumes "ancestor ds m i = Some j" and "0 < n" and "ancestor ds n j = Some j"
  shows "\<not> chain_ends ds i"
proof
  assume "chain_ends ds i"
  then have "chain_ends ds j" using assms(1) by (rule chain_ends_ancestor)
  then show False
    using chain_ends_not_on_cycle [of ds j "n - 1"] assms(2,3) by simp
qed

text \<open>
  Claim C6. \<open>__getitem__\<close> at a row whose ancestor chain ends returns, in either mode and
  for every random source. In validation mode, on a well-formed dataset, at a row \<open>i\<close>
  whose chain reaches (after \<open>m\<close> steps) a row \<open>j\<close> that is its own \<open>n\<close>-th ancestor
  for some positive \<open>n\<close> (a cycle; a row that is its own parent when \<open>n\<close> is 1), the
  walk never ends and the call has no result.
\<close>

theorem parent_walk_termination:
  "(chain_ends ds i \<longrightarrow> (\<exists>r. getitem ds g (int i) = Some r)) \<and>
   (wf_dataset ds \<and> eos_available ds \<and> ds_mode ds = ''validation'' \<and> i < len ds \<and>
    ancestor ds m i = Some j \<and> 0 < n \<and> ancestor ds n j = Some j
      \<longrightarrow> getitem ds g (int i) = None)"
proof (intro conjI impI)
  assume "chain_ends ds i"
  then show "\<exists>r. getitem ds g (int i) = Some r" by (rule getitem_terminates)
next
  assume a: "wf_dataset ds \<and> eos_available ds \<and> ds_mode ds = ''validation'' \<and> i < len ds \<and>
    ancestor ds m i = Some j \<and> 0 < n \<and> ancestor ds n j = Some j"
  then have "\<not> chain_ends ds i" using cyclic_chain_never_ends by blast
  moreover have "ds_mode ds \<noteq> ''train''" using a by simp
  ultimately show "getitem ds g (int i) = None"
    using a getitem_never_returns by blast
qed

section \<open>The order of a chain\<close>

lemma rnd_uniform_advance: "rnd_uniform (advance ds g) = rnd_uniform g"
  by (simp add: advance_def)

lemma parent_walk_stop:
  assumes "parent_ids ds = Some pids" and "parent_of ds i = None" and "i < length pids"
  shows "parent_walk ds pids g (int i) samples = Some (Inr samples, g)"
proof -
  have "py_index pids (int i) = Inr (pids ! i)"
    using assms(3) by (rule py_index_in_range)
  moreover from this have "df_id_to_idx ds (pids ! i) = None"
    using assms(2) by (simp add: parent_of_Some_pids [OF assms(1)])
  ultimately show ?thesis
    by (subst parent_walk.simps) simp
qed

lemma parent_walk_step:
  assumes "parent_ids ds = Some pids" and "parent_of ds i = Some p"
    and "get_sample ds (int p) = Inr s"
    and "skip_parent_probability (ds_cfg ds) = 0" and "\<forall>k. 0 \<le> rnd_uniform g k"
  shows "parent_walk ds pids g (int i) samples =
           parent_walk ds pids (advance ds g) (int p) (s # samples)"
proof -
  obtain pid where pid: "py_index pids (int i) = Inr pid" and p: "df_id_to_idx ds pid = Some p"
    using assms(2) unfolding parent_of_Some_pids [OF assms(1)]
    by (auto split: sum.splits)
  have "\<not> rnd_uniform g (rnd_used g) < 0"
    using assms(5) by (simp add: not_less)
  then show ?thesis
    by (subst parent_walk.simps)
      (simp add: pid p assms(3,4) np_random_random_def advance_def)
qed

lemma random_parent_none:
  assumes "random_parent_probability (ds_cfg ds) = 0" and "\<forall>k. 0 \<le> rnd_uniform g k"
  shows "random_parent ds g samples = (Inr samples, advance ds g)"
proof -
  have "\<not> rnd_uniform g (rnd_used g) < 0"
    using assms(2) by (simp add: not_less)
  then show ?thesis
    by (simp add: random_parent_def np_random_random_def advance_def assms(1))
qed

text \<open>
  Claim C1. Rows A, B and C, where A's parent id has no mapping, B's parent is A and C's
  parent is B; parent chaining is on, the skip-parent and the random-parent probabilities
  are 0, and uniform draws are never negative. Then the samples built for C are those of
  A, B and C in this order, and the unpadded flat id sequence is A's prompt ids and answer
  ids, then B's, then C's. The random source is advanced three times (in train mode).
\<close>

theorem chain_is_ancestors_first:
  assumes chaining: "parent_ids ds = Some pids"
    and C: "parent_of ds iC = Some iB" and B: "parent_of ds iB = Some iA"
    and A: "parent_of ds iA = None" "iA < length pids"
    and sA: "get_sample ds (int iA) = Inr (pA, aA)"
    and sB: "get_sample ds (int iB) = Inr (pB, aB)"
    and sC: "get_sample ds (int iC) = Inr (pC, aC)"
    and skip: "skip_parent_probability (ds_cfg ds) = 0"
    and rand: "random_parent_probability (ds_cfg ds) = 0"
    and draws: "\<forall>k. 0 \<le> rnd_uniform g k"
  shows "read_data_samples ds g (int iC) =
           Some (Inr [(pA, aA), (pB, aB), (pC, aC)], advance ds (advance ds (advance ds g))) \<and>
         getitem ds g (int iC) =
           Some (read_data_tensors ds [(pA, aA), (pB, aB), (pC, aC)],
                 advance ds (advance ds (advance ds g))) \<and>
         flat_input_ids [(pA, aA), (pB, aB), (pC, aC)] = (pA @ aA) @ (pB @ aB) @ (pC @ aC)"
proof -
  let ?g1 = "advance ds g" and ?g2 = "advance ds (advance ds g)"
  have d1: "\<forall>k. 0 \<le> rnd_uniform ?g1 k" and d2: "\<forall>k. 0 \<le> rnd_uniform ?g2 k"
    using draws by (simp_all add: rnd_uniform_advance)
  have "parent_walk ds pids g (int iC) [(pC, aC)] =
          parent_walk ds pids ?g1 (int iB) [(pB, aB), (pC, aC)]"
    by (rule parent_walk_step [OF chaining C sB skip draws])
  also have "\<dots> = parent_walk ds pids ?g2 (int iA) [(pA, aA), (pB, aB), (pC, aC)]"
    by (rule parent_walk_step [OF chaining B sA skip d1])
  also have "\<dots> = Some (Inr [(pA, aA), (pB, aB), (pC, aC)], ?g2)"
    by (rule parent_walk_stop [OF chaining A])
  finally have walk: "parent_walk ds pids g (int iC) [(pC, aC)] =
      Some (Inr [(pA, aA), (pB, aB), (pC, aC)], ?g2)" .
  have samples: "read_data_samples ds g (int iC) =
      Some (Inr [(pA, aA), (pB, aB), (pC, aC)], advance ds ?g2)"
    by (simp add: read_data_samples_def sC chaining walk random_parent_none [OF rand d2])
  then have "getitem ds g (int iC) =
      Some (read_data_tensors ds [(pA, aA), (pB, aB), (pC, aC)], advance ds ?g2)"
    by (simp add: getitem_def read_data_def)
  moreover have "flat_input_ids [(pA, aA), (pB, aB), (pC, aC)] = (pA @ aA) @ (pB @ aB) @ (pC @ aC)"
    by (simp add: flat_input_ids_def)
  ultimately show ?thesis using samples by simp
qed

section \<open>Construction of the dataset\<close>

lemma has_column_iff: "c \<in> set (column_names df) \<longleftrightarrow> (\<exists>xs. df_col df c = Inr xs)"
proof -
  have "c \<in> set (column_names df) \<longleftrightarrow> map_of (columns df) c \<noteq> None"
    by (simp add: column_names_def map_of_eq_None_iff)
  then show ?thesis
    by (cases "map_of (columns df) c") (simp_all add: df_col_def)
qed

lemma df_col_Inr_map_of: "df_col df c = Inr xs \<longleftrightarrow> map_of (columns df) c = Some xs"
  by (cases "map_of (columns df) c") (simp_all add: df_col_def)

lemma df_col_Inl: "df_col df c = Inl e \<Longrightarrow> e = KeyError c"
  by (cases "map_of (columns df) c") (simp_all add: df_col_def)

lemma wf_dataframe_column_length:
  assumes "wf_dataframe df" and "df_col df c = Inr xs"
  shows "length xs = n_rows df"
proof -
  have "(c, xs) \<in> set (columns df)"
    using assms(2) by (simp add: df_col_Inr_map_of map_of_SomeD)
  then show ?thesis
    using assms(1) by (auto simp: wf_dataframe_def list_all_iff)
qed

lemma length_dropna: "length (dropna xs) = length xs \<longleftrightarrow> NaN \<notin> set xs"
proof -
  have "length (filter (\<lambda>c. c \<noteq> NaN) xs) = length xs \<longleftrightarrow> (\<forall>c \<in> set xs. c \<noteq> NaN)"
  proof (induction xs)
    case Nil
    show ?case by simp
  next
    case (Cons x xs)
    have le: "length (filter (\<lambda>c. c \<noteq> NaN) xs) \<le> length xs" by (rule length_filter_le)
    show ?case
    proof (cases "x = NaN")
      case True
      have "length (filter (\<lambda>c. c \<noteq> NaN) xs) \<noteq> Suc (length xs)"
        using le by linarith
      then show ?thesis using True by simp
    next
      case False
      then show ?thesis using Cons by simp
    qed
  qed
  then show ?thesis by (auto simp: dropna_def)
qed

lemma map_err_Inl:
  "map_err f xs = Inl e \<Longrightarrow> \<exists>x \<in> set xs. f x = Inl e"
  by (induction xs) (auto split: sum.splits)

lemma map_err_Inr_length:
  "map_err f xs = Inr ys \<Longrightarrow> length ys = length xs"
  by (induction xs arbitrary: ys) (auto split: sum.splits)

lemma get_texts_Inl: "get_texts df cfg sep = Inl e \<Longrightarrow> \<exists>c. e = KeyError c"
  unfolding get_texts_def
  by (auto split: prompt_column.splits sum.splits dest: df_col_Inl dest!: map_err_Inl)

lemma init_parents_Inl: "init_parents df cfg = Inl e \<Longrightarrow> \<exists>c. e = KeyError c"
  unfolding init_parents_def
  by (auto split: if_splits sum.splits dest: df_col_Inl)

lemma parse_prompt_Inl:
  "parse_prompt dec cfg prompt = Inl e \<Longrightarrow> e = TypeError \<or> e = UnicodeDecodeError"
  unfolding parse_prompt_def Let_def
  by (auto split: if_splits option.splits)

lemma get_tokenizer_answer_column:
  "get_tokenizer loaded cfg = (tok, cfg') \<Longrightarrow> answer_column cfg' = answer_column cfg"
  by (auto simp: get_tokenizer_def Let_def)

lemma init_unfold:
  assumes "mode = ''train'' \<or> mode = ''validation''"
  shows "init dec load df cfg mode =
     (if answer_column cfg \<notin> set (column_names df)
      then Inl (ValueError (missing_column_message mode cfg))
      else if n_rows df \<noteq> length (dropna (the (map_of (columns df) (answer_column cfg))))
      then Inl (ValueError (missing_values_message mode cfg))
      else init_rest dec load df cfg mode)"
  using assms unfolding init_def Let_def by auto

lemma init_invalid_mode:
  assumes "\<not> (mode = ''train'' \<or> mode = ''validation'')"
  shows "init dec load df cfg mode = Inl AssertionError"
  using assms unfolding init_def by simp

lemma init_rest_loaded:
  assumes "init_rest dec load df cfg mode = Inr ds"
  obtains loaded where "load = Inr loaded"
  using assms by (cases load) (simp_all add: init_rest_def)

lemma init_rest_Inr:
  assumes "init_rest dec load df cfg mode = Inr ds"
  obtains loaded tok cfg' texts acol pids idmap ps where
    "load = Inr loaded"
    "get_tokenizer loaded cfg = (tok, cfg')"
    "get_texts df cfg' (Some '''') = Inr texts"
    "df_col df (answer_column cfg') = Inr acol"
    "init_parents df cfg' = Inr (pids, idmap)"
    "map_err (parse_prompt dec cfg') texts = Inr ps"
    "ds = \<lparr>ds_cfg = cfg', ds_mode = mode, ds_df = df, ds_tokenizer = tok,
           prompts = ps, answers = map astype_str acol,
           parent_ids = pids, df_id_to_idx = idmap\<rparr>"
proof -
  from assms obtain loaded where load: "load = Inr loaded"
    by (rule init_rest_loaded)
  obtain tok cfg' where gt: "get_tokenizer loaded cfg = (tok, cfg')"
    by (cases "get_tokenizer loaded cfg")
  obtain texts where texts: "get_texts df cfg' (Some '''') = Inr texts"
    using assms load gt by (cases "get_texts df cfg' (Some '''')") (auto simp: init_rest_def)
  obtain acol where acol: "df_col df (answer_column cfg') = Inr acol"
    using assms load gt texts
    by (cases "df_col df (answer_column cfg')") (auto simp: init_rest_def)
  obtain pids idmap where par: "init_parents df cfg' = Inr (pids, idmap)"
    using assms load gt texts acol
    by (cases "init_parents df cfg'") (auto simp: init_rest_def)
  obtain ps where ps: "map_err (parse_prompt dec cfg') texts = Inr ps"
    using assms load gt texts acol par
    by (cases "map_err (parse_prompt dec cfg') texts") (auto simp: init_rest_def)
  have "ds = \<lparr>ds_cfg = cfg', ds_mode = mode, ds_df = df, ds_tokenizer = tok,
           prompts = ps, answers = map astype_str acol,
           parent_ids = pids, df_id_to_idx = idmap\<rparr>"
    using assms load gt texts acol par ps by (auto simp: init_rest_def split: if_splits)
  with load gt texts acol par ps show thesis by (rule that)
qed

lemma init_rest_Inr_answers:
  assumes "init_rest dec load df cfg mode = Inr ds"
  shows "\<exists>xs. df_col df (answer_column cfg) = Inr xs \<and> answers ds = map astype_str xs \<and>
              ds_df ds = df"
proof -
  from assms obtain loaded tok cfg' acol pids idmap ps where
    gt: "get_tokenizer loaded cfg = (tok, cfg')"
    and acol: "df_col df (answer_column cfg') = Inr acol"
    and ds: "ds = \<lparr>ds_cfg = cfg', ds_mode = mode, ds_df = df, ds_tokenizer = tok,
           prompts = ps, answers = map astype_str acol,
           parent_ids = pids, df_id_to_idx = idmap\<rparr>"
    by (rule init_rest_Inr)
  have "answer_column cfg' = answer_column cfg"
    by (rule get_tokenizer_answer_column [OF gt])
  then show ?thesis using acol ds by simp
qed

lemma init_Inr_rest:
  assumes "init dec load df cfg mode = Inr ds"
  shows "init_rest dec load df cfg mode = Inr ds"
proof -
  have "mode = ''train'' \<or> mode = ''validation''"
    using assms by (auto simp: init_def split: if_splits)
  from assms [unfolded init_unfold [OF this]] show ?thesis
    by (simp split: if_splits)
qed

lemma answer_column_check:
  assumes "wf_dataframe df" and "df_col df (answer_column cfg) = Inr xs"
  shows "answer_column cfg \<in> set (column_names df)"
    and "n_rows df \<noteq> length (dropna (the (map_of (columns df) (answer_column cfg))))
           \<longleftrightarrow> NaN \<in> set xs"
proof -
  show "answer_column cfg \<in> set (column_names df)"
    using assms(2) by (auto simp: has_column_iff)
  have "the (map_of (columns df) (answer_column cfg)) = xs"
    using assms(2) by (simp add: df_col_Inr_map_of)
  moreover have "length xs = n_rows df"
    by (rule wf_dataframe_column_length [OF assms])
  ultimately show "n_rows df \<noteq> length (dropna (the (map_of (columns df) (answer_column cfg))))
           \<longleftrightarrow> NaN \<in> set xs"
    using length_dropna [of xs] by auto
qed

lemma init_on_answer_column:
  assumes "wf_dataframe df" and "mode = ''train'' \<or> mode = ''validation''"
    and "df_col df (answer_column cfg) = Inr xs"
  shows "init dec load df cfg mode =
     (if NaN \<in> set xs then Inl (ValueError (missing_values_message mode cfg))
      else init_rest dec load df cfg mode)"
  using answer_column_check [OF assms(1,3)] by (simp add: init_unfold [OF assms(2)])

lemma init_Inl_on_answer_column:
  assumes "wf_dataframe df"
    and "answer_column cfg \<notin> set (column_names df) \<or>
         (\<exists>xs. df_col df (answer_column cfg) = Inr xs \<and> NaN \<in> set xs)"
  shows "\<exists>e. init dec load df cfg mode = Inl e"
proof (cases "mode = ''train'' \<or> mode = ''validation''")
  case False
  then show ?thesis by (simp add: init_invalid_mode)
next
  case True
  from assms(2) show ?thesis
  proof
    assume "answer_column cfg \<notin> set (column_names df)"
    then show ?thesis by (simp add: init_unfold [OF True])
  next
    assume "\<exists>xs. df_col df (answer_column cfg) = Inr xs \<and> NaN \<in> set xs"
    then obtain xs where "df_col df (answer_column cfg) = Inr xs" and "NaN \<in> set xs"
      by blast
    then show ?thesis by (simp add: init_on_answer_column [OF assms(1) True])
  qed
qed

lemma init_Inr_answers:
  assumes "wf_dataframe df" and "init dec load df cfg mode = Inr ds"
  shows "\<exists>xs. df_col df (answer_column cfg) = Inr xs \<and> NaN \<notin> set xs \<and>
              length (answers ds) = len ds \<and>
              (\<forall>i < len ds. xs ! i \<noteq> NaN \<and>
                 py_index (answers ds) (int i) = Inr (astype_str (xs ! i)))"
proof -
  from init_rest_Inr_answers [OF init_Inr_rest [OF assms(2)]]
  obtain xs where xs: "df_col df (answer_column cfg) = Inr xs"
    and a: "answers ds = map astype_str xs" and d: "ds_df ds = df"
    by blast
  have len: "length xs = n_rows df"
    by (rule wf_dataframe_column_length [OF assms(1) xs])
  have nan: "NaN \<notin> set xs"
  proof
    assume "NaN \<in> set xs"
    then have "\<exists>e. init dec load df cfg mode = Inl e"
      using init_Inl_on_answer_column [OF assms(1)] xs by blast
    then show False using assms(2) by auto
  qed
  have "length (answers ds) = len ds"
    using a d len by (simp add: len_def)
  moreover have "xs ! i \<noteq> NaN \<and> py_index (answers ds) (int i) = Inr (astype_str (xs ! i))"
    if "i < len ds" for i
  proof -
    have i: "i < length xs"
      using that d len by (simp add: len_def)
    then have "xs ! i \<in> set xs" by simp
    then have "xs ! i \<noteq> NaN" using nan by metis
    then show ?thesis
      using i a by (simp add: py_index_in_range)
  qed
  ultimately show ?thesis using xs nan by blast
qed

text \<open>
  Claim C9, amended. The claim reads: construction raises an error if and only if the
  answer column is absent or has a missing value. The \<open>if\<close> half holds, the \<open>only if\<close>
  half does not: with the answer column present and complete, \<open>__init__\<close> still raises
  for a mode that is neither \<open>train\<close> nor \<open>validation\<close>, for a tokenizer that cannot be
  loaded, for an absent prompt or parent-id column, for a malformed escape in the prompt
  prefix or the answer separator (a \<open>UnicodeDecodeError\<close>, which is a \<open>ValueError\<close>), for
  an end-of-sequence text that is \<open>None\<close>, and on an empty table.

  What holds, for a table whose columns all have \<open>n_rows\<close> cells: if the answer column
  is absent or has a missing value then \<open>__init__\<close> raises, whatever the mode, the
  decoder and the tokenizer; in a valid mode it raises the \<open>ValueError\<close> of the check, with
  the message of the case; in a valid mode, with the column present and complete, the
  check raises nothing and the outcome of \<open>__init__\<close> is that of the statements after the
  check. A dataset that was constructed has one answer per row, each the text of a cell
  that is not missing, so that no item fails on this condition later.
\<close>

theorem init_fails_fast_on_answer_column:
  assumes "wf_dataframe df"
  shows "((answer_column cfg \<notin> set (column_names df) \<or>
           (\<exists>xs. df_col df (answer_column cfg) = Inr xs \<and> NaN \<in> set xs)) \<longrightarrow>
            (\<exists>e. init dec load df cfg mode = Inl e)) \<and>
         (mode = ''train'' \<or> mode = ''validation'' \<longrightarrow>
            (answer_column cfg \<notin> set (column_names df) \<longrightarrow>
               init dec load df cfg mode = Inl (ValueError (missing_column_message mode cfg))) \<and>
            ((\<exists>xs. df_col df (answer_column cfg) = Inr xs \<and> NaN \<in> set xs) \<longrightarrow>
               init dec load df cfg mode = Inl (ValueError (missing_values_message mode cfg))) \<and>
            ((\<exists>xs. df_col df (answer_column cfg) = Inr xs \<and> NaN \<notin> set xs) \<longrightarrow>
               init dec load df cfg mode = init_rest dec load df cfg mode)) \<and>
         (\<forall>ds. init dec load df cfg mode = Inr ds \<longrightarrow>
            (\<exists>xs. df_col df (answer_column cfg) = Inr xs \<and> NaN \<notin> set xs \<and>
                  length (answers ds) = len ds \<and>
                  (\<forall>i < len ds. xs ! i \<noteq> NaN \<and>
                     py_index (answers ds) (int i) = Inr (astype_str (xs ! i)))))"
proof -
  have 1: "\<exists>e. init dec load df cfg mode = Inl e"
    if "answer_column cfg \<notin> set (column_names df) \<or>
        (\<exists>xs. df_col df (answer_column cfg) = Inr xs \<and> NaN \<in> set xs)"
    using init_Inl_on_answer_column [OF assms that] .
  have 2: "init dec load df cfg mode = Inl (ValueError (missing_column_message mode cfg))"
    if "mode = ''train'' \<or> mode = ''validation''"
      and "answer_column cfg \<notin> set (column_names df)"
    using that(2) by (simp add: init_unfold [OF that(1)])
  have 3: "init dec load df cfg mode = Inl (ValueError (missing_values_message mode cfg))"
    if "mode = ''train'' \<or> mode = ''validation''"
      and "\<exists>xs. df_col df (answer_column cfg) = Inr xs \<and> NaN \<in> set xs"
    using that(2) by (auto simp: init_on_answer_column [OF assms that(1)])
  have 4: "init dec load df cfg mode = init_rest dec load df cfg mode"
    if "mode = ''train'' \<or> mode = ''validation''"
      and "\<exists>xs. df_col df (answer_column cfg) = Inr xs \<and> NaN \<notin> set xs"
    using that(2) by (auto simp: init_on_answer_column [OF assms that(1)])
  have 5: "\<exists>xs. df_col df (answer_column cfg) = Inr xs \<and> NaN \<notin> set xs \<and>
              length (answers ds) = len ds \<and>
              (\<forall>i < len ds. xs ! i \<noteq> NaN \<and>
                 py_index (answers ds) (int i) = Inr (astype_str (xs ! i)))"
    if "init dec load df cfg mode = Inr ds" for ds
    using init_Inr_answers [OF assms that] .
  show ?thesis
    using 1 2 3 4 5 by blast
qed

section \<open>What construction establishes\<close>

lemma get_texts_length:
  assumes "wf_dataframe df" and "get_texts df cfg sep = Inr texts"
  shows "length texts = n_rows df"
proof (cases "prompt_column cfg")
  case (Single c)
  then obtain xs where "df_col df c = Inr xs" and "texts = map astype_str xs"
    using assms(2) by (cases "df_col df c") (auto simp: get_texts_def)
  then show ?thesis
    using wf_dataframe_column_length [OF assms(1)] by simp
next
  case (Multi cs)
  then obtain cols where "map_err (df_col df) cs = Inr cols"
    using assms(2) by (cases "map_err (df_col df) cs") (auto simp: get_texts_def)
  then show ?thesis
    using assms(2) Multi by (auto simp: get_texts_def Let_def)
qed

lemma fold_id_update_range:
  assumes "fold (\<lambda>(k, v) m. m(v \<mapsto> k)) (enumerate n ids) m0 c = Some i"
  shows "m0 c = Some i \<or> (n \<le> i \<and> i < n + length ids)"
  using assms
proof (induction ids arbitrary: n m0)
  case Nil
  then show ?case by simp
next
  case (Cons x ids)
  from Cons.prems
  have "fold (\<lambda>(k, v) m. m(v \<mapsto> k)) (enumerate (Suc n) ids) (m0(x \<mapsto> n)) c = Some i"
    by (simp del: fun_upd_apply)
  from Cons.IH [OF this]
  show ?case by (auto split: if_splits)
qed

lemma id_to_idx_range: "id_to_idx ids c = Some i \<Longrightarrow> i < length ids"
  unfolding id_to_idx_def
  by (drule fold_id_update_range) simp

lemma init_parents_wf:
  assumes "wf_dataframe df" and "init_parents df cfg = Inr (Some pids, idmap)"
  shows "length pids = n_rows df \<and> (\<forall>c i. idmap c = Some i \<longrightarrow> i < n_rows df)"
proof -
  from assms(2) obtain ids where pids: "df_col df (parent_id_column cfg) = Inr pids"
    and ids: "df_col df ''id'' = Inr ids" and idmap: "idmap = id_to_idx ids"
    unfolding init_parents_def
    by (auto split: if_splits sum.splits)
  have "length pids = n_rows df" "length ids = n_rows df"
    using wf_dataframe_column_length [OF assms(1)] pids ids by simp_all
  then show ?thesis
    using idmap id_to_idx_range [of ids] by auto
qed

lemma init_establishes_wf:
  assumes "wf_dataframe df" and "init dec load df cfg mode = Inr ds"
  shows "wf_dataset ds"
proof -
  from init_Inr_rest [OF assms(2)]
  obtain loaded tok cfg' texts acol pids idmap ps where
    texts: "get_texts df cfg' (Some '''') = Inr texts"
    and acol: "df_col df (answer_column cfg') = Inr acol"
    and par: "init_parents df cfg' = Inr (pids, idmap)"
    and ps: "map_err (parse_prompt dec cfg') texts = Inr ps"
    and ds: "ds = \<lparr>ds_cfg = cfg', ds_mode = mode, ds_df = df, ds_tokenizer = tok,
           prompts = ps, answers = map astype_str acol,
           parent_ids = pids, df_id_to_idx = idmap\<rparr>"
    by (rule init_rest_Inr)
  have 1: "length ps = n_rows df"
    using map_err_Inr_length [OF ps] get_texts_length [OF assms(1) texts] by simp
  have 2: "length acol = n_rows df"
    by (rule wf_dataframe_column_length [OF assms(1) acol])
  have 3: "length p = n_rows df \<and> (\<forall>c i. idmap c = Some i \<longrightarrow> i < n_rows df)"
    if "pids = Some p" for p
    using init_parents_wf [OF assms(1)] par that by simp
  show ?thesis
  proof (cases pids)
    case None
    then show ?thesis using 1 2 by (simp add: wf_dataset_def ds len_def)
  next
    case (Some p)
    from 3 [OF Some] show ?thesis
      using 1 2 Some
      by (auto simp: wf_dataset_def ds len_def list_all_iff split: option.splits)
  qed
qed

section \<open>Calls that return an item\<close>

text \<open>
  On a well-formed dataset with a pad id, positive lengths, and a row whose chain ends and
  whose prompt has at least one token, \<open>__getitem__\<close> returns an item, in either mode.
\<close>

lemma pad_tokens_returns:
  assumes "0 < M" and "ids \<noteq> []" and "length am = length ids"
  shows "\<exists>r. pad_tokens ids am M (Some pad) = Inr r"
proof -
  define ids' where "ids' = (if M < int (length ids) then slice_from ids (- M) else ids)"
  define am' where "am' = (if M < int (length ids) then slice_from am (- M) else am)"
  have ids': "ids' = drop (length ids - nat M) ids"
    unfolding ids'_def by (rule truncate_to_tail [OF assms(1)])
  have "am' = (if M < int (length am) then slice_from am (- M) else am)"
    by (simp add: am'_def assms(3))
  then have am': "am' = drop (length am - nat M) am"
    using truncate_to_tail [OF assms(1), of am] by simp
  have "0 < nat M" and "0 < length ids"
    using assms(1,2) by auto
  then have "length ids - nat M < length ids" by linarith
  then have ne: "ids' \<noteq> []" and le: "length ids' \<le> nat M"
    by (auto simp: ids')
  have same: "length am' = length ids'"
    by (simp add: ids' am' assms(3))
  have ne': "am' \<noteq> []" using ne same by auto
  have full: "torch_full M v = Inr (replicate (nat M) v)" for v :: int
    using assms(1) by (simp add: torch_full_def)
  have 1: "assign_from (replicate (nat M) pad) (- int (length ids')) ids' =
             Inr (replicate (nat M - length ids') pad @ ids')"
    by (rule assign_from_right_aligned [OF ne le])
  have 2: "assign_from (replicate (nat M) 0) (- int (length ids')) am' =
             Inr (replicate (nat M - length am') 0 @ am')"
    using assign_from_right_aligned [OF ne', of "nat M" 0] le same by simp
  show ?thesis
    unfolding pad_tokens_unfold ids'_def [symmetric] am'_def [symmetric]
    by (simp add: full 1 2)
qed

lemma make_labels_returns:
  assumes "0 < max_length (ds_cfg ds)" and "ids \<noteq> []" and "length msk = length ids"
    and "eos_available ds"
  shows "\<exists>lab. make_labels ds ids msk = Inr lab"
proof -
  define M where "M = max_length (ds_cfg ds)"
  define l1 where
    "l1 = (if mask_prompt_labels (ds_cfg ds) then masked_fill ids msk (- 100) else ids)"
  have pos: "0 < M" using assms(1) by (simp add: M_def)
  have l1_len: "length l1 = length ids"
    by (simp add: l1_def length_masked_fill assms(3))
  then have l1_ne: "l1 \<noteq> []" using assms(2) by auto
  obtain l2 where l2: "(if add_eos_token_to_answer (ds_cfg ds) then
                 (case eos_token_id (ds_tokenizer ds) of
                    None \<Rightarrow> Inl TypeError
                  | Some eos \<Rightarrow> set_last l1 eos)
               else Inr l1) = Inr l2"
    and l2_len: "length l2 = length l1"
  proof (cases "add_eos_token_to_answer (ds_cfg ds)")
    case False
    then show ?thesis using that [of l1] by simp
  next
    case True
    then obtain eos where eos: "eos_token_id (ds_tokenizer ds) = Some eos"
      using assms(4) by (auto simp: eos_available_def)
    have "length (butlast l1 @ [eos]) = length l1"
      using l1_ne by (cases l1 rule: rev_cases) auto
    then show ?thesis
      using that [of "butlast l1 @ [eos]"] True eos l1_ne by (simp add: set_last_def)
  qed
  define l3 where "l3 = drop (length l2 - nat M) l2"
  have trunc: "(if M < int (length ids) then slice_from l2 (- M) else l2) = l3"
    using truncate_to_tail [OF pos, of l2] by (simp add: l3_def l2_len l1_len)
  have "0 < nat M" and "0 < length l2"
    using pos l1_ne l2_len by auto
  then have "length l2 - nat M < length l2" by linarith
  then have ne: "l3 \<noteq> []" and le: "length l3 \<le> nat M"
    by (auto simp: l3_def)
  have full: "torch_full M (- 100 :: int) = Inr (replicate (nat M) (- 100))"
    using pos by (simp add: torch_full_def)
  have "make_labels ds ids msk = assign_from (replicate (nat M) (- 100)) (- int (length l3)) l3"
    unfolding make_labels_def Let_def l1_def [symmetric] l2 M_def [symmetric]
    by (simp add: full trunc)
  then show ?thesis
    using assign_from_right_aligned [OF ne le, of "- 100"] by simp
qed

lemma read_data_tensors_returns:
  assumes "0 < max_length (ds_cfg ds)" and "0 < max_length_prompt (ds_cfg ds)"
    and "pad_token_id (ds_tokenizer ds) \<noteq> None" and "eos_available ds"
    and "flat_input_ids samples \<noteq> []" and "flat_input_ids (drop_last_answer samples) \<noteq> []"
  shows "\<exists>it. read_data_tensors ds samples = Inr it"
proof -
  obtain pad where pad: "pad_token_id (ds_tokenizer ds) = Some pad"
    using assms(3) by auto
  obtain lab where lab:
    "make_labels ds (flat_input_ids samples) (flat_prompt_mask samples) = Inr lab"
    using make_labels_returns [OF assms(1,5) length_flat_prompt_mask assms(4)] by blast
  obtain a b where ab:
    "pad_tokens (flat_input_ids samples) (replicate (length (flat_input_ids samples)) 1)
       (max_length (ds_cfg ds)) (Some pad) = Inr (a, b)"
    using pad_tokens_returns [OF assms(1,5), of _ pad] by (metis length_replicate surj_pair)
  obtain c d where cd:
    "pad_tokens (flat_input_ids (drop_last_answer samples))
       (replicate (length (flat_input_ids (drop_last_answer samples))) 1)
       (max_length_prompt (ds_cfg ds)) (Some pad) = Inr (c, d)"
    using pad_tokens_returns [OF assms(2,6), of _ pad] by (metis length_replicate surj_pair)
  show ?thesis
    by (simp add: read_data_tensors_def Let_def lab pad ab cd)
qed

lemma parent_walk_returns_samples:
  assumes "chain_ends ds i" and "i < len ds"
    and pids: "parent_ids ds = Some pids" and wf: "wf_dataset ds" and eos: "eos_available ds"
  shows "\<exists>out g'. parent_walk ds pids g (int i) samples = Some (Inr out, g')"
  using assms(1,2)
proof (induction arbitrary: g samples)
  case (root i)
  have "i < length pids"
    using wf pids root(2) by (simp add: wf_dataset_def)
  then show ?case
    using parent_walk_stop [OF pids root(1)] by blast
next
  case (step i p)
  have len: "i < length pids"
    using wf pids step.prems by (simp add: wf_dataset_def)
  then have pid: "py_index pids (int i) = Inr (pids ! i)"
    by (rule py_index_in_range)
  then have idx: "df_id_to_idx ds (pids ! i) = Some p"
    using step(1) by (simp add: parent_of_Some_pids [OF pids])
  have p: "p < len ds"
    by (rule wf_parent_in_range [OF wf pids step.prems idx])
  from get_sample_in_range [OF wf eos p]
  obtain s where s: "get_sample ds (int p) = Inr s" by blast
  from step.IH [OF p]
  have rec: "\<exists>out g'. parent_walk ds pids g1 (int p) (s # samples) = Some (Inr out, g')" for g1
    by blast
  show ?case
  proof (cases "ds_mode ds = ''train'' \<and>
                rnd_uniform g (rnd_used g) < skip_parent_probability (ds_cfg ds)")
    case True
    then show ?thesis
      by (subst parent_walk.simps) (simp add: pid idx np_random_random_def)
  next
    case False
    then show ?thesis
      using rec [of g] rec [of "g\<lparr>rnd_used := Suc (rnd_used g)\<rparr>"]
      by (subst parent_walk.simps) (auto simp: pid idx s np_random_random_def)
  qed
qed

lemma random_parent_returns_samples:
  assumes "wf_dataset ds" and "eos_available ds" and "0 < len ds"
  shows "\<exists>out g'. random_parent ds g samples = (Inr out, g')"
proof (cases "ds_mode ds = ''train'' \<and>
              rnd_uniform g (rnd_used g) < random_parent_probability (ds_cfg ds)")
  case False
  then show ?thesis
    by (auto simp: random_parent_def np_random_random_def)
next
  case True
  define g1 where "g1 = g\<lparr>rnd_used := Suc (rnd_used g)\<rparr>"
  define k where "k = rnd_integers g1 (rnd_used g1) mod len ds"
  have "k < len ds" using assms(3) by (simp add: k_def)
  from get_sample_in_range [OF assms(1,2) this]
  obtain s where "get_sample ds (int k) = Inr s" by blast
  then show ?thesis
    using True assms(3)
    by (simp add: random_parent_def np_random_random_def np_random_randint_def
        g1_def [symmetric] k_def [symmetric])
qed

lemma getitem_returns_item:
  assumes wf: "wf_dataset ds" and eos: "eos_available ds"
    and pad: "pad_token_id (ds_tokenizer ds) \<noteq> None"
    and len: "0 < max_length (ds_cfg ds)" "0 < max_length_prompt (ds_cfg ds)"
    and i: "i < len ds" and ends: "chain_ends ds i"
    and s: "get_sample ds (int i) = Inr (p, a)" and p: "p \<noteq> []"
  shows "\<exists>it g'. getitem ds g (int i) = Some (Inr it, g')"
proof -
  have "\<exists>mid g1. (case parent_ids ds of None \<Rightarrow> Some (Inr [(p, a)], g)
                | Some pids \<Rightarrow> parent_walk ds pids g (int i) [(p, a)]) = Some (Inr mid, g1)"
  proof (cases "parent_ids ds")
    case None
    then show ?thesis by simp
  next
    case (Some pids)
    then show ?thesis
      using parent_walk_returns_samples [OF ends i Some wf eos] by simp
  qed
  then obtain mid g1 where mid: "(case parent_ids ds of None \<Rightarrow> Some (Inr [(p, a)], g)
                | Some pids \<Rightarrow> parent_walk ds pids g (int i) [(p, a)]) = Some (Inr mid, g1)"
    by blast
  have "0 < len ds" using i by simp
  from random_parent_returns_samples [OF wf eos this]
  obtain out g' where out: "random_parent ds g1 mid = (Inr out, g')" by blast
  have samples: "read_data_samples ds g (int i) = Some (Inr out, g')"
    by (simp add: read_data_samples_def s mid out)
  from samples obtain pre s' where "out = pre @ [s']" and "get_sample ds (int i) = Inr s'"
    by (rule read_data_samples_Inr)
  then have pre: "out = pre @ [(p, a)]"
    using s by simp
  have 1: "flat_input_ids out \<noteq> []"
    using p by (simp add: pre flat_input_ids_def)
  have 2: "flat_input_ids (drop_last_answer out) \<noteq> []"
    using p by (simp add: pre flat_input_ids_def drop_last_answer_def)
  from read_data_tensors_returns [OF len pad eos 1 2]
  obtain it where "read_data_tensors ds out = Inr it" by blast
  then show ?thesis
    by (simp add: getitem_def read_data_def samples)
qed

section \<open>The concrete datasets\<close>

lemmas example_defs =
  example_ds_def cyclic_ds_def eos_pad_ds_def example_config'_def example_config_def
  example_tokenizer'_def example_tokenizer_def example_df_def cyclic_df_def missing_df_def
  example_rnd_def

lemmas item_defs =
  get_sample_def py_index_def encode_def slice_from_def slice_to_def eos_token_id_def
  pad_token_id_def id_to_idx_def len_def

lemmas tensor_defs =
  read_data_tensors_def flat_input_ids_def flat_prompt_mask_def make_labels_def masked_fill_def
  set_last_def torch_full_def assign_from_def pad_tokens_def drop_last_answer_def

lemma example_samples:
  "read_data_samples example_ds g 0 = Some (Inr [([104, 105], [65, 2])], g)"
  "read_data_samples example_ds g 1 =
     Some (Inr [([104, 105], [65, 2]), ([121, 111], [66, 2])], g)"
  "read_data_samples example_ds g 2 =
     Some (Inr [([104, 105], [65, 2]), ([121, 111], [66, 2]), ([111, 107], [67, 2])], g)"
  by (simp_all add: read_data_samples_def parent_walk.simps random_parent_def
      example_defs item_defs)

lemma eos_pad_samples:
  "read_data_samples eos_pad_ds g 0 = Some (Inr [([104, 105], [65, 2])], g)"
  by (simp add: read_data_samples_def parent_walk.simps random_parent_def
      example_defs item_defs)

lemma example_item_1:
  "getitem example_ds g 1 =
     Some (Inr \<lparr>labels = [- 100, - 100, 65, 2, - 100, - 100, 66, 2],
                input_ids = [104, 105, 65, 2, 121, 111, 66, 2],
                attention_mask = [1, 1, 1, 1, 1, 1, 1, 1],
                prompt_input_ids = [65, 2, 121, 111],
                prompt_attention_mask = [1, 1, 1, 1]\<rparr>, g)"
  unfolding getitem_def read_data_def example_samples
  by (simp add: tensor_defs example_defs item_defs)

lemma example_item_2:
  "getitem example_ds g 2 =
     Some (Inr \<lparr>labels = [- 100, - 100, 66, 2, - 100, - 100, 67, 2],
                input_ids = [121, 111, 66, 2, 111, 107, 67, 2],
                attention_mask = [1, 1, 1, 1, 1, 1, 1, 1],
                prompt_input_ids = [66, 2, 111, 107],
                prompt_attention_mask = [1, 1, 1, 1]\<rparr>, g)"
  unfolding getitem_def read_data_def example_samples
  by (simp add: tensor_defs example_defs item_defs)

lemma eos_pad_item_0:
  "getitem eos_pad_ds g 0 =
     Some (Inr \<lparr>labels = [- 100, - 100, - 100, - 100, - 100, - 100, 65, 2],
                input_ids = [2, 2, 2, 2, 104, 105, 65, 2],
                attention_mask = [0, 0, 0, 0, 1, 1, 1, 1],
                prompt_input_ids = [2, 2, 104, 105],
                prompt_attention_mask = [0, 0, 1, 1]\<rparr>, g)"
  unfolding getitem_def read_data_def eos_pad_samples
  by (simp add: tensor_defs example_defs item_defs eval_nat_numeral)

lemma example_parents:
  "parent_of example_ds 2 = Some 1" "parent_of example_ds 1 = Some 0"
  "parent_of example_ds 0 = None"
  by (simp_all add: parent_of_def example_defs item_defs)

lemma cyclic_parents:
  "parent_of cyclic_ds 0 = Some (Suc 0)" "parent_of cyclic_ds (Suc 0) = Some 0"
  by (simp_all add: parent_of_def example_defs item_defs)

lemma cyclic_ancestors: "ancestor cyclic_ds 0 0 = Some 0" "ancestor cyclic_ds 2 0 = Some 0"
  by (simp_all add: eval_nat_numeral cyclic_parents)

lemma cyclic_ds_wf: "wf_dataset cyclic_ds" "eos_available cyclic_ds"
  by (simp_all add: wf_dataset_def eos_available_def example_defs item_defs)

section \<open>The claims on the concrete datasets\<close>

theorem item_tensor_lengths_witness:
  "getitem example_ds example_rnd 1 =
     Some (Inr \<lparr>labels = [- 100, - 100, 65, 2, - 100, - 100, 66, 2],
                input_ids = [104, 105, 65, 2, 121, 111, 66, 2],
                attention_mask = [1, 1, 1, 1, 1, 1, 1, 1],
                prompt_input_ids = [65, 2, 121, 111],
                prompt_attention_mask = [1, 1, 1, 1]\<rparr>, example_rnd) \<and>
   max_length (ds_cfg example_ds) = 8 \<and> max_length_prompt (ds_cfg example_ds) = 4 \<and>
   int (length [104, 105, 65, 2, 121, 111, 66, 2 :: int]) = max_length (ds_cfg example_ds) \<and>
   int (length [65, 2, 121, 111 :: int]) = max_length_prompt (ds_cfg example_ds)"
  using item_tensor_lengths [OF example_item_1 [of example_rnd]] example_item_1 [of example_rnd]
  by (simp add: example_ds_def example_config'_def example_config_def)

theorem labels_end_with_eos_witness:
  "getitem eos_pad_ds example_rnd 0 =
     Some (Inr \<lparr>labels = [- 100, - 100, - 100, - 100, - 100, - 100, 65, 2],
                input_ids = [2, 2, 2, 2, 104, 105, 65, 2],
                attention_mask = [0, 0, 0, 0, 1, 1, 1, 1],
                prompt_input_ids = [2, 2, 104, 105],
                prompt_attention_mask = [0, 0, 1, 1]\<rparr>, example_rnd) \<and>
   add_eos_token_to_answer (ds_cfg eos_pad_ds) \<and>
   pad_token_id (ds_tokenizer eos_pad_ds) = eos_token_id (ds_tokenizer eos_pad_ds) \<and>
   0 < max_length (ds_cfg eos_pad_ds) \<and>
   Some (last [- 100, - 100, - 100, - 100, - 100, - 100, 65, 2]) =
     eos_token_id (ds_tokenizer eos_pad_ds)"
proof -
  have e: "add_eos_token_to_answer (ds_cfg eos_pad_ds)"
    by (simp add: example_defs)
  show ?thesis
    using labels_end_with_eos [OF eos_pad_item_0 [of example_rnd] e]
      eos_pad_item_0 [of example_rnd] e
    by (simp add: example_defs item_defs)
qed

theorem prompt_labels_ignored_witness:
  "getitem example_ds example_rnd 2 =
     Some (Inr \<lparr>labels = [- 100, - 100, 66, 2, - 100, - 100, 67, 2],
                input_ids = [121, 111, 66, 2, 111, 107, 67, 2],
                attention_mask = [1, 1, 1, 1, 1, 1, 1, 1],
                prompt_input_ids = [66, 2, 111, 107],
                prompt_attention_mask = [1, 1, 1, 1]\<rparr>, example_rnd) \<and>
   mask_prompt_labels (ds_cfg example_ds) \<and>
   read_data_samples example_ds example_rnd 2 =
     Some (Inr [([104, 105], [65, 2]), ([121, 111], [66, 2]), ([111, 107], [67, 2])],
           example_rnd) \<and>
   flat_prompt_mask [([104, 105], [65, 2]), ([121, 111], [66, 2]), ([111, 107], [67, 2])] ! 8 \<and>
   [- 100, - 100, 66, 2, - 100, - 100, 67, 2 :: int] ! (nat (max_length (ds_cfg example_ds))
      - (length (flat_input_ids
                  [([104, 105], [65, 2]), ([121, 111], [66, 2]), ([111, 107], [67, 2])]) - 8))
     = - 100"
proof -
  let ?samples = "[([104, 105], [65, 2]), ([121, 111], [66, 2]), ([111, 107 :: int], [67, 2 :: int])]"
  have m: "mask_prompt_labels (ds_cfg example_ds)"
    by (simp add: example_defs)
  from prompt_labels_ignored [OF example_item_2 [of example_rnd] m]
  have all: "\<forall>i < length (flat_input_ids ?samples).
              flat_prompt_mask ?samples ! i \<longrightarrow>
              length (flat_input_ids ?samples) - i \<le> nat (max_length (ds_cfg example_ds)) \<longrightarrow>
              [- 100, - 100, 66, 2, - 100, - 100, 67, 2 :: int]
                 ! (nat (max_length (ds_cfg example_ds)) - (length (flat_input_ids ?samples) - i))
                = - 100"
    by (simp add: example_samples)
  have 1: "8 < length (flat_input_ids ?samples)"
    and 2: "flat_prompt_mask ?samples ! 8"
    and 3: "length (flat_input_ids ?samples) - 8 \<le> nat (max_length (ds_cfg example_ds))"
    by (simp_all add: flat_input_ids_def flat_prompt_mask_def example_defs eval_nat_numeral)
  from all [rule_format, OF 1 2 3] 2 m example_item_2 [of example_rnd]
    example_samples(3) [of example_rnd]
  show ?thesis by simp
qed

theorem validation_items_deterministic_witness:
  "ds_mode example_ds = ''validation'' \<and>
   map_option fst (getitem example_ds example_rnd 2) =
     map_option fst (getitem example_ds
                       (example_rnd\<lparr>rnd_uniform := (\<lambda>k. 0), rnd_used := 7\<rparr>) 2) \<and>
   getitem example_ds example_rnd 2 =
     Some (Inr \<lparr>labels = [- 100, - 100, 66, 2, - 100, - 100, 67, 2],
                input_ids = [121, 111, 66, 2, 111, 107, 67, 2],
                attention_mask = [1, 1, 1, 1, 1, 1, 1, 1],
                prompt_input_ids = [66, 2, 111, 107],
                prompt_attention_mask = [1, 1, 1, 1]\<rparr>, example_rnd)"
proof -
  have v: "ds_mode example_ds = ''validation''"
    by (simp add: example_defs)
  show ?thesis
    using validation_items_deterministic
      [OF v, of example_rnd 2 "example_rnd\<lparr>rnd_uniform := (\<lambda>k. 0), rnd_used := 7\<rparr>"]
      v example_item_2 [of example_rnd]
    by simp
qed

theorem parent_walk_termination_witness:
  "chain_ends example_ds 2 \<and> (\<exists>r. getitem example_ds example_rnd (int 2) = Some r) \<and>
   wf_dataset cyclic_ds \<and> eos_available cyclic_ds \<and> ds_mode cyclic_ds = ''validation'' \<and>
   0 < len cyclic_ds \<and> ancestor cyclic_ds 0 0 = Some 0 \<and> (0 :: nat) < 2 \<and>
   ancestor cyclic_ds 2 0 = Some 0 \<and> getitem cyclic_ds example_rnd (int 0) = None"
proof -
  have ends: "chain_ends example_ds 2"
    by (intro chain_ends.step [OF example_parents(1)] chain_ends.step [OF example_parents(2)]
        chain_ends.root [OF example_parents(3)])
  have cyc: "ds_mode cyclic_ds = ''validation''" "0 < len cyclic_ds"
    by (simp_all add: example_defs len_def)
  show ?thesis
    using parent_walk_termination [of example_ds 2 example_rnd 0 0 2]
      parent_walk_termination [of cyclic_ds 0 example_rnd 0 0 2]
      ends cyc cyclic_ds_wf cyclic_ancestors
    by simp
qed

theorem chain_is_ancestors_first_witness:
  "parent_ids (example_ds\<lparr>ds_mode := ''train''\<rparr>) = Some [NaN, Val ''a'', Val ''b''] \<and>
   parent_of (example_ds\<lparr>ds_mode := ''train''\<rparr>) 2 = Some 1 \<and>
   parent_of (example_ds\<lparr>ds_mode := ''train''\<rparr>) 1 = Some 0 \<and>
   parent_of (example_ds\<lparr>ds_mode := ''train''\<rparr>) 0 = None \<and>
   get_sample (example_ds\<lparr>ds_mode := ''train''\<rparr>) (int 0) = Inr ([104, 105], [65, 2]) \<and>
   get_sample (example_ds\<lparr>ds_mode := ''train''\<rparr>) (int 1) = Inr ([121, 111], [66, 2]) \<and>
   get_sample (example_ds\<lparr>ds_mode := ''train''\<rparr>) (int 2) = Inr ([111, 107], [67, 2]) \<and>
   skip_parent_probability (ds_cfg (example_ds\<lparr>ds_mode := ''train''\<rparr>)) = 0 \<and>
   random_parent_probability (ds_cfg (example_ds\<lparr>ds_mode := ''train''\<rparr>)) = 0 \<and>
   (\<forall>k. 0 \<le> rnd_uniform example_rnd k) \<and>
   read_data_samples (example_ds\<lparr>ds_mode := ''train''\<rparr>) example_rnd (int 2) =
     Some (Inr [([104, 105], [65, 2]), ([121, 111], [66, 2]), ([111, 107], [67, 2])],
           example_rnd\<lparr>rnd_used := 3\<rparr>) \<and>
   flat_input_ids [([104, 105], [65, 2]), ([121, 111], [66, 2]), ([111, 107], [67, 2])] =
     [104, 105, 65, 2, 121, 111, 66, 2, 111, 107, 67, 2]"
proof -
  let ?ds = "example_ds\<lparr>ds_mode := ''train''\<rparr>"
  have pids: "parent_ids ?ds = Some [NaN, Val ''a'', Val ''b'']"
    by (simp add: example_defs)
  have par: "parent_of ?ds 2 = Some 1" "parent_of ?ds 1 = Some 0" "parent_of ?ds 0 = None"
    by (simp_all add: parent_of_def example_defs item_defs)
  have len: "0 < length [NaN, Val ''a'', Val ''b'']"
    by simp
  have s: "get_sample ?ds (int 0) = Inr ([104, 105], [65, 2])"
    "get_sample ?ds (int 1) = Inr ([121, 111], [66, 2])"
    "get_sample ?ds (int 2) = Inr ([111, 107], [67, 2])"
    by (simp_all add: example_defs item_defs)
  have p: "skip_parent_probability (ds_cfg ?ds) = 0" "random_parent_probability (ds_cfg ?ds) = 0"
    by (simp_all add: example_defs)
  have d: "\<forall>k. 0 \<le> rnd_uniform example_rnd k"
    by (simp add: example_rnd_def)
  have a: "advance ?ds (advance ?ds (advance ?ds example_rnd)) = example_rnd\<lparr>rnd_used := 3\<rparr>"
    by (simp add: advance_def example_defs)
  show ?thesis
    using chain_is_ancestors_first [OF pids par len s(1) s(2) s(3) p d] pids par s p d
    by (simp add: a flat_input_ids_def)
qed

lemma example_init:
  "init example_decode (Inr example_tokenizer) example_df example_config ''validation'' =
     Inr example_ds"
  unfolding init_def init_rest_def sum.case get_tokenizer_example
  by (simp add: example_defs column_names_def dropna_def get_texts_def
      df_col_def init_parents_def parse_prompt_def example_decode_def Let_def)

lemma get_tokenizer_question:
  "get_tokenizer example_tokenizer question_config =
     (example_tokenizer', example_config'\<lparr>prompt_column := Single ''question''\<rparr>)"
  by (simp add: get_tokenizer_def example_tokenizer_def example_config_def question_config_def
      example_tokenizer'_def example_config'_def resolve_mask_token_id_def Let_def)

lemma get_tokenizer_backslash:
  "get_tokenizer example_tokenizer backslash_config =
     (example_tokenizer', example_config'\<lparr>text_prompt_start := [CHR 0x5C]\<rparr>)"
  by (simp add: get_tokenizer_def example_tokenizer_def example_config_def backslash_config_def
      example_tokenizer'_def example_config'_def resolve_mask_token_id_def Let_def)

text \<open>
  The first table has its answer column present and complete, and \<open>__init__\<close> raises all
  the same: \<open>KeyError\<close> for the prompt column the table does not have,
  \<open>UnicodeDecodeError\<close> (a \<open>ValueError\<close>) for the prompt prefix that is a lone backslash,
  the error of the tokenizer that cannot be loaded, and \<open>AssertionError\<close> for the mode
  \<open>test\<close>.
\<close>

theorem init_raises_with_complete_answer_column:
  "df_col example_df (answer_column question_config) = Inr [Val ''A'', Val ''B'', Val ''C''] \<and>
   NaN \<notin> set [Val ''A'', Val ''B'', Val ''C''] \<and>
   init example_decode (Inr example_tokenizer) example_df question_config ''validation'' =
     Inl (KeyError ''question'') \<and>
   df_col example_df (answer_column backslash_config) = Inr [Val ''A'', Val ''B'', Val ''C''] \<and>
   init example_decode (Inr example_tokenizer) example_df backslash_config ''validation'' =
     Inl UnicodeDecodeError \<and>
   isinstance_ValueError UnicodeDecodeError \<and>
   df_col example_df (answer_column example_config) = Inr [Val ''A'', Val ''B'', Val ''C''] \<and>
   init example_decode (Inl OSError) example_df example_config ''validation'' = Inl OSError \<and>
   init example_decode (Inr example_tokenizer) example_df example_config ''test'' =
     Inl AssertionError"
proof -
  have col: "df_col example_df (answer_column question_config) =
      Inr [Val ''A'', Val ''B'', Val ''C'']"
    "df_col example_df (answer_column backslash_config) = Inr [Val ''A'', Val ''B'', Val ''C'']"
    "df_col example_df (answer_column example_config) = Inr [Val ''A'', Val ''B'', Val ''C'']"
    by (simp_all add: df_col_def example_defs question_config_def backslash_config_def)
  have q: "init example_decode (Inr example_tokenizer) example_df question_config
      ''validation'' = Inl (KeyError ''question'')"
    unfolding init_def init_rest_def sum.case get_tokenizer_question
    by (simp add: example_defs question_config_def column_names_def
        dropna_def get_texts_def df_col_def Let_def)
  have b: "init example_decode (Inr example_tokenizer) example_df backslash_config
      ''validation'' = Inl UnicodeDecodeError"
    unfolding init_def init_rest_def sum.case get_tokenizer_backslash
    by (simp add: example_defs backslash_config_def column_names_def
        dropna_def get_texts_def df_col_def init_parents_def parse_prompt_def
        example_decode_def Let_def)
  have l: "init example_decode (Inl OSError) example_df example_config ''validation'' =
      Inl OSError"
    unfolding init_def init_rest_def
    by (simp add: example_defs column_names_def dropna_def Let_def)
  have t: "init example_decode (Inr example_tokenizer) example_df example_config ''test'' =
      Inl AssertionError"
    by (simp add: init_def)
  show ?thesis
    using col q b l t by simp
qed

theorem init_fails_fast_on_answer_column_witness:
  "wf_dataframe missing_df \<and>
   df_col missing_df (answer_column example_config) = Inr [Val ''A'', NaN] \<and>
   NaN \<in> set [Val ''A'', NaN] \<and>
   init example_decode (Inr example_tokenizer) missing_df example_config ''validation'' =
     Inl (ValueError ''The validation DataFrame column answer contain missing values.'') \<and>
   (\<exists>e. init example_decode (Inr example_tokenizer) missing_df example_config ''test'' =
     Inl e) \<and>
   wf_dataframe example_df \<and>
   answer_column (example_config\<lparr>answer_column := ''label''\<rparr>) \<notin> set (column_names example_df) \<and>
   init example_decode (Inr example_tokenizer) example_df
        (example_config\<lparr>answer_column := ''label''\<rparr>) ''train'' =
     Inl (ValueError ''The train DataFrame does not contain the required column: label.'') \<and>
   df_col example_df (answer_column example_config) = Inr [Val ''A'', Val ''B'', Val ''C''] \<and>
   NaN \<notin> set [Val ''A'', Val ''B'', Val ''C''] \<and>
   init example_decode (Inr example_tokenizer) example_df example_config ''validation'' =
     Inr example_ds \<and>
   init_rest example_decode (Inr example_tokenizer) example_df example_config ''validation'' =
     Inr example_ds \<and>
   py_index (answers example_ds) (int 2) = Inr ''C''"
proof -
  note c9 = init_fails_fast_on_answer_column
    [where dec = example_decode and load = "Inr example_tokenizer"]
  have v: "''validation'' = ''train'' \<or> ''validation'' = ''validation''"
    and t: "''train'' = ''train'' \<or> ''train'' = ''validation''"
    by simp_all
  have wf: "wf_dataframe missing_df" "wf_dataframe example_df"
    by (simp_all add: wf_dataframe_def example_defs)
  have col: "df_col missing_df (answer_column example_config) = Inr [Val ''A'', NaN]"
    "df_col example_df (answer_column example_config) = Inr [Val ''A'', Val ''B'', Val ''C'']"
    by (simp_all add: df_col_def example_defs)
  have nan: "NaN \<in> set [Val ''A'', NaN]" "NaN \<notin> set [Val ''A'', Val ''B'', Val ''C'']"
    by simp_all
  have absent:
    "answer_column (example_config\<lparr>answer_column := ''label''\<rparr>) \<notin> set (column_names example_df)"
    by (simp add: column_names_def example_defs)
  have 1: "init example_decode (Inr example_tokenizer) missing_df example_config ''validation'' =
      Inl (ValueError (missing_values_message ''validation'' example_config))"
    using c9 [OF wf(1), of example_config "''validation''"] v col(1) nan(1)
    by blast
  have 2: "\<exists>e. init example_decode (Inr example_tokenizer) missing_df example_config ''test'' =
      Inl e"
    using c9 [OF wf(1), of example_config "''test''"] col(1) nan(1)
    by blast
  have 3: "init example_decode (Inr example_tokenizer) example_df
             (example_config\<lparr>answer_column := ''label''\<rparr>) ''train'' =
      Inl (ValueError (missing_column_message ''train''
                         (example_config\<lparr>answer_column := ''label''\<rparr>)))"
    using c9 [OF wf(2), of "example_config\<lparr>answer_column := ''label''\<rparr>" "''train''"] t absent
    by blast
  have 4: "init example_decode (Inr example_tokenizer) example_df example_config ''validation'' =
      init_rest example_decode (Inr example_tokenizer) example_df example_config ''validation''"
    using c9 [OF wf(2), of example_config "''validation''"] v col(2) nan(2)
    by blast
  have 5: "py_index (answers example_ds) (int 2) = Inr ''C''"
  proof -
    have "\<exists>xs. df_col example_df (answer_column example_config) = Inr xs \<and>
            (\<forall>i < len example_ds. xs ! i \<noteq> NaN \<and>
               py_index (answers example_ds) (int i) = Inr (astype_str (xs ! i)))"
      using c9 [OF wf(2), of example_config "''validation''"] example_init
      by blast
    then have "\<forall>i < len example_ds. py_index (answers example_ds) (int i) =
            Inr (astype_str ([Val ''A'', Val ''B'', Val ''C''] ! i))"
      using col(2) by auto
    moreover have "2 < len example_ds"
      by (simp add: example_defs len_def)
    ultimately have "py_index (answers example_ds) (int 2) =
            Inr (astype_str ([Val ''A'', Val ''B'', Val ''C''] ! 2))"
      by blast
    then show ?thesis by simp
  qed
  have msgs:
    "missing_values_message ''validation'' example_config =
       ''The validation DataFrame column answer contain missing values.''"
    "missing_column_message ''train'' (example_config\<lparr>answer_column := ''label''\<rparr>) =
       ''The train DataFrame does not contain the required column: label.''"
    by (simp_all add: missing_values_message_def missing_column_message_def example_config_def)
  have 6: "init_rest example_decode (Inr example_tokenizer) example_df example_config
      ''validation'' = Inr example_ds"
    using 4 example_init by simp
  show ?thesis
    using wf col nan absent example_init 1 2 3 5 6 unfolding msgs by blast
qed

end
